theory Spec2Isabelle
  imports Main
begin

section \<open>Errors\<close>

text \<open>
  The exceptions of \<^verbatim>\<open>spykewave/datatype/core.py\<close> as values. An
  \<^verbatim>\<open>SPWValueError(legal, varname, actual)\<close> keeps its three arguments; the
  message \<^verbatim>\<open>"value between {lb:s} and {ub:s}"\<close> is kept as \<open>Between lb ub\<close>
  instead of the formatted text, and \<^verbatim>\<open>str(slice(a, b))\<close> as \<open>ActSlice a b\<close>.
  \<open>IndexError\<close>, \<open>StopIteration\<close> and \<open>ValueError\<close> are the Python builtins
  raised by list indexing, by \<^verbatim>\<open>next\<close> and by numpy.
\<close>

datatype legal = Between int int | Legal string

datatype actual = ActNum int | ActSlice int int | NoActual

datatype error =
    SPWTypeError string string
  | SPWValueError legal string actual
  | IndexError
  | StopIteration
  | ValueError

text \<open>
  Modelled from the spec: \<^verbatim>\<open>spw_scalar_parser\<close> lives in
  \<^verbatim>\<open>spykewave.utils\<close>, which is not part of the sources at hand. The spec
  says that a scalar index is validated against \<open>0 \<le> i < L\<close> with a bounds error
  otherwise, and the caller passes \<^verbatim>\<open>lims=[0, L - 1]\<close>: the parser accepts
  exactly the integers of the closed interval \<open>lims\<close> and otherwise raises a bounds
  error reporting the legal interval and the offending value. The arguments here are
  already integers, so the \<^verbatim>\<open>ntype="int_like"\<close> test has nothing to reject.
\<close>

definition spw_scalar_parser :: "int \<Rightarrow> string \<Rightarrow> int \<times> int \<Rightarrow> error + unit" where
  "spw_scalar_parser var varname lims =
     (if var < fst lims \<or> snd lims < var
      then Inl (SPWValueError (Between (fst lims) (snd lims)) varname (ActNum var))
      else Inr ())"

section \<open>Indexer\<close>

text \<open>
  \<^verbatim>\<open>_iterobj\<close> is a single-pass iterator: its state is the list of the elements it
  has not produced yet. \<^verbatim>\<open>_iterlen\<close> is the length handed to the constructor.
\<close>

record 'a Indexer =
  iterobj :: "'a list"
  iterlen :: int

definition Indexer_init :: "'a list \<Rightarrow> int \<Rightarrow> 'a Indexer" where
  "Indexer_init it n = \<lparr>iterobj = it, iterlen = n\<rparr>"

text \<open>
  \<^verbatim>\<open>next(islice(it, i, i + 1))\<close>: \<^verbatim>\<open>islice\<close> refuses a negative start
  with a \<open>ValueError\<close> before touching the iterator; otherwise it consumes \<open>i\<close>
  elements of \<open>it\<close> and returns the one after them, or raises \<open>StopIteration\<close> when
  \<open>it\<close> runs out first (and is then empty). The second component is the iterator
  afterwards.
\<close>

definition next_islice :: "'a list \<Rightarrow> int \<Rightarrow> (error + 'a) \<times> 'a list" where
  "next_islice it i =
     (if i < 0 then (Inl ValueError, it)
      else if nat i < length it then (Inr (it ! nat i), drop (nat i + 1) it)
      else (Inl StopIteration, []))"

text \<open>
  \<^verbatim>\<open>Indexer.__getitem__\<close>, the branch for \<^verbatim>\<open>isinstance(idx, numbers.Number)\<close>.
  The result comes with the indexer afterwards, whose iterator has moved.
\<close>

definition Indexer_getitem :: "'a Indexer \<Rightarrow> int \<Rightarrow> (error + 'a) \<times> 'a Indexer" where
  "Indexer_getitem self idx =
     (case spw_scalar_parser idx ''idx'' (0, iterlen self - 1) of
        Inl exc \<Rightarrow> (Inl exc, self)
      | Inr _ \<Rightarrow>
          (case next_islice (iterobj self) idx of
             (r, it') \<Rightarrow> (r, self\<lparr>iterobj := it'\<rparr>)))"

text \<open>A caller making the calls \<^verbatim>\<open>self[i]\<close> for the \<open>i\<close> of a list, one after the
  other on the same object, and keeping every outcome.\<close>

fun index_calls :: "'a Indexer \<Rightarrow> int list \<Rightarrow> (error + 'a) list \<times> 'a Indexer" where
  "index_calls self [] = ([], self)"
| "index_calls self (i # is) =
     (case Indexer_getitem self i of
        (r, self') \<Rightarrow> (case index_calls self' is of (rs, self'') \<Rightarrow> (r # rs, self'')))"

section \<open>Arrays, slices and views\<close>

text \<open>
  A numpy array: its \<^verbatim>\<open>shape\<close> and, for a 2-d array, its rows. A chunk is such
  an array (or a memory map) that lives outside the \<^verbatim>\<open>ChunkData\<close> object, which
  only keeps references to it: the store maps every reference to the current content.
\<close>

datatype 'a ndarray = NDArray (shape: "nat list") (cells: "'a list list")

type_synonym addr = nat

type_synonym 'a store = "addr \<Rightarrow> 'a ndarray"

text \<open>
  A Python slice \<^verbatim>\<open>start:stop\<close> with step 1, either bound possibly absent.
  On a sequence of length \<open>n\<close> a negative bound counts from the end and every bound
  is clipped to \<open>0..n\<close>; a slice whose stop is not after its start selects nothing.
\<close>

type_synonym pyslice = "int option \<times> int option"

definition slice_index :: "nat \<Rightarrow> int \<Rightarrow> nat" where
  "slice_index n i = (if i < 0 then nat (max 0 (i + int n)) else min (nat i) n)"

definition slice_bounds :: "nat \<Rightarrow> pyslice \<Rightarrow> nat \<times> nat" where
  "slice_bounds n s =
     (case fst s of None \<Rightarrow> 0 | Some a \<Rightarrow> slice_index n a,
      case snd s of None \<Rightarrow> n | Some b \<Rightarrow> slice_index n b)"

definition slice_len :: "nat \<Rightarrow> pyslice \<Rightarrow> nat" where
  "slice_len n s = (case slice_bounds n s of (lo, hi) \<Rightarrow> hi - lo)"

definition py_slice :: "pyslice \<Rightarrow> 'x list \<Rightarrow> 'x list" where
  "py_slice s xs = (case slice_bounds (length xs) s of (lo, hi) \<Rightarrow> take (hi - lo) (drop lo xs))"

text \<open>
  \<^verbatim>\<open>a[rs, cs]\<close> on a 2-d array. \<^verbatim>\<open>ChunkData\<close> accepts 2-d chunks only;
  an array of another rank is answered with an error here.
\<close>

definition getitem2 :: "'a ndarray \<Rightarrow> pyslice \<Rightarrow> pyslice \<Rightarrow> error + 'a ndarray" where
  "getitem2 a rs cs =
     (case shape a of
        [r, c] \<Rightarrow>
          Inr (NDArray [slice_len r rs, slice_len c cs] (map (py_slice cs) (py_slice rs (cells a))))
      | _ \<Rightarrow> Inl IndexError)"

text \<open>
  What \<^verbatim>\<open>__getitem__\<close> hands out. Basic slicing in numpy allocates nothing: it
  yields a view, here the sliced object together with the two slices, and its content is
  whatever the store holds when the view is read. \<open>Owned\<close> is an array with a buffer of
  its own, as \<^verbatim>\<open>np.vstack\<close> builds one.
\<close>

datatype 'a block =
    Handle addr
  | Sliced "'a block" pyslice pyslice
  | Owned "'a ndarray"

fun deref :: "'a store \<Rightarrow> 'a block \<Rightarrow> error + 'a ndarray" where
  "deref st (Handle p) = Inr (st p)"
| "deref st (Sliced b rs cs) =
     (case deref st b of Inl e \<Rightarrow> Inl e | Inr a \<Rightarrow> getitem2 a rs cs)"
| "deref st (Owned a) = Inr a"

text \<open>The chunk a view borrows from (numpy's \<^verbatim>\<open>.base\<close>); none for an owned array.\<close>

fun base :: "'a block \<Rightarrow> addr option" where
  "base (Handle p) = Some p"
| "base (Sliced b rs cs) = base b"
| "base (Owned a) = None"

fun collect :: "(error + 'x) list \<Rightarrow> error + 'x list" where
  "collect [] = Inr []"
| "collect (Inl e # rs) = Inl e"
| "collect (Inr x # rs) = (case collect rs of Inl e \<Rightarrow> Inl e | Inr xs \<Rightarrow> Inr (x # xs))"

text \<open>
  \<^verbatim>\<open>np.vstack(data)\<close> reads every block of the list and copies the rows, one block
  after the other, into a new array. It raises \<open>ValueError\<close> on an empty list and when
  the blocks differ in a dimension other than the first.
\<close>

definition vstack :: "'a store \<Rightarrow> 'a block list \<Rightarrow> error + 'a block" where
  "vstack st bs =
     (case collect (map (deref st) bs) of
        Inl e \<Rightarrow> Inl e
      | Inr [] \<Rightarrow> Inl ValueError
      | Inr (a # as) \<Rightarrow>
          if list_all (\<lambda>b. tl (shape b) = tl (shape a)) as
          then Inr (Owned (NDArray (sum_list (map (\<lambda>b. hd (shape b)) (a # as)) # tl (shape a))
                                   (concat (map cells (a # as)))))
          else Inl ValueError)"

text \<open>\<^verbatim>\<open>x in range(start, stop)\<close>, the range kept as the pair of its bounds.\<close>

definition in_range :: "int \<Rightarrow> int \<times> int \<Rightarrow> bool" where
  "in_range x r = (fst r \<le> x \<and> x < snd r)"

text \<open>
  \<^verbatim>\<open>np.where(bs)[0].item()\<close>: the positions of \<open>True\<close> in \<open>bs\<close>;
  \<^verbatim>\<open>item\<close> raises \<open>ValueError\<close> unless there is exactly one.
\<close>

definition where_item :: "bool list \<Rightarrow> error + nat" where
  "where_item bs =
     (case filter (\<lambda>i. bs ! i) [0..<length bs] of
        [i] \<Rightarrow> Inr i
      | _ \<Rightarrow> Inl ValueError)"

text \<open>
  numpy computes with 64-bit signed integers: a result outside \<open>-2^63 ..< 2^63\<close> wraps
  around. Array operations do so silently, scalar operations with a warning only.
\<close>

definition int64 :: "int \<Rightarrow> int" where
  "int64 x = (x + 2 ^ 63) mod 2 ^ 64 - 2 ^ 63"

text \<open>
  \<^verbatim>\<open>np.cumsum(nrows)\<close>: the running sums of a list of integers, as an array of
  64-bit integers. The entries of \<open>nrows\<close> are dimensions of arrays, which are below
  \<open>2^63\<close> in numpy.
\<close>

fun cumsum_from :: "int \<Rightarrow> int list \<Rightarrow> int list" where
  "cumsum_from acc [] = []"
| "cumsum_from acc (x # xs) = int64 (acc + x) # cumsum_from (int64 (acc + x)) xs"

definition cumsum :: "int list \<Rightarrow> int list" where
  "cumsum xs = cumsum_from 0 xs"

text \<open>\<^verbatim>\<open>xs[i]\<close> for \<open>i \<ge> 0\<close> on a Python list, which raises \<open>IndexError\<close> out of range.\<close>

definition list_index :: "'x list \<Rightarrow> nat \<Rightarrow> error + 'x" where
  "list_index xs i = (if i < length xs then Inr (xs ! i) else Inl IndexError)"

section \<open>ChunkData\<close>

text \<open>
  The slots \<^verbatim>\<open>_M\<close>, \<^verbatim>\<open>_N\<close>, \<^verbatim>\<open>_shape\<close>, \<^verbatim>\<open>_size\<close>,
  \<^verbatim>\<open>_nrows\<close>, \<^verbatim>\<open>_data\<close> and \<^verbatim>\<open>_rows\<close>. \<^verbatim>\<open>_data\<close> is the list of
  chunk references as given; \<^verbatim>\<open>_rows\<close> holds one \<^verbatim>\<open>range(start, stop)\<close> of
  global row numbers per chunk. \<^verbatim>\<open>_M\<close> and \<^verbatim>\<open>_size\<close> are 64-bit numpy
  integers, \<^verbatim>\<open>_N\<close> and the bounds of the ranges are Python integers.
\<close>

record ChunkData =
  cd_M :: int
  cd_N :: int
  cd_shape :: "int \<times> int"
  cd_size :: int
  cd_nrows :: "int list"
  cd_data :: "addr list"
  cd_rows :: "(int \<times> int) list"

text \<open>
  \<^verbatim>\<open>ChunkData.__init__\<close>. Every entry of \<open>chunk_list\<close> is an array, so the two
  \<^verbatim>\<open>SPWTypeError\<close> exits are not reachable. The list comprehension over an empty
  list passes the rank test, and \<^verbatim>\<open>shapes[0]\<close> then raises \<open>IndexError\<close>
  while the arguments of \<^verbatim>\<open>np.array_equal\<close> are evaluated. \<^verbatim>\<open>cumlen\<close> and
  \<^verbatim>\<open>cumlen - nrows\<close> are arrays of 64-bit integers, and so is the product
  \<^verbatim>\<open>self._M*self._N\<close>.
\<close>

definition ChunkData_init :: "'a store \<Rightarrow> addr list \<Rightarrow> error + ChunkData" where
  "ChunkData_init st chunk_list =
     (let shapes = map (\<lambda>chunk. shape (st chunk)) chunk_list in
      if list_ex (\<lambda>s. length s \<noteq> 2) shapes
      then Inl (SPWValueError (Legal ''2d-array'') ''chunk in chunk_list'' NoActual)
      else
     (case list_index shapes 0 of
        Inl exc \<Rightarrow> Inl exc
      | Inr shape0 \<Rightarrow>
          if map (\<lambda>s. s ! 1) shapes \<noteq> replicate (length shapes) (shape0 ! 1)
          then Inl (SPWValueError (Legal ''identical number of samples per chunk'')
                      ''chunk_list'' NoActual)
          else
            let nrows = map (\<lambda>s. int (s ! 0)) shapes;
                cumlen = cumsum nrows;
                M = last cumlen;
                N = int (shape (st (hd chunk_list)) ! 1)
            in Inr \<lparr>cd_M = M, cd_N = N, cd_shape = (M, N), cd_size = int64 (M * N),
                     cd_nrows = nrows, cd_data = chunk_list,
                     cd_rows = zip (map2 (\<lambda>c n. int64 (c - n)) cumlen nrows) cumlen\<rparr>))"

text \<open>
  A selector of \<^verbatim>\<open>__getitem__\<close>: a number, a \<^verbatim>\<open>slice(start, stop)\<close> with
  either bound possibly \<^verbatim>\<open>None\<close>, or something else.
\<close>

datatype selector = Num int | Slice "int option" "int option" | Other

text \<open>
  The conversion of one selector to explicit start and stop values, which the source
  writes out twice, for the row with \<open>ext = _M\<close> and for the column with \<open>ext = _N\<close>.
\<close>

definition resolve :: "selector \<Rightarrow> string \<Rightarrow> int \<Rightarrow> error + int \<times> int" where
  "resolve q varname ext =
     (case q of
        Num x \<Rightarrow>
          (case spw_scalar_parser x varname (0, ext) of
             Inl exc \<Rightarrow> Inl exc
           | Inr _ \<Rightarrow> Inr (x, x + 1))
      | Slice start stop \<Rightarrow>
          Inr (case start of None \<Rightarrow> 0 | Some a \<Rightarrow> a, case stop of None \<Rightarrow> ext | Some b \<Rightarrow> b)
      | Other \<Rightarrow> Inl (SPWTypeError varname ''int_like or slice''))"

text \<open>
  \<^verbatim>\<open>ChunkData.__getitem__\<close>. The store is read in the branch that stacks blocks
  and nowhere else. \<^verbatim>\<open>_data\<close> and \<^verbatim>\<open>_rows\<close> have the same length in every
  object that \<^verbatim>\<open>__init__\<close> returns, so a position found in \<^verbatim>\<open>_rows\<close> is one
  of \<^verbatim>\<open>_data\<close>. Selectors are Python integers; a default stop is the 64-bit
  \<^verbatim>\<open>_M\<close>, and the differences formed with it lie between 0 and the row number of
  the chunk found, so nothing wraps around here.
\<close>

definition ChunkData_getitem :: "'a store \<Rightarrow> ChunkData \<Rightarrow> selector \<times> selector \<Rightarrow> error + 'a block" where
  "ChunkData_getitem st self idx =
     (case idx of (qrow, qcol) \<Rightarrow>
     (case resolve qrow ''row'' (cd_M self) of Inl exc \<Rightarrow> Inl exc | Inr row \<Rightarrow>
     (case resolve qcol ''col'' (cd_N self) of Inl exc \<Rightarrow> Inl exc | Inr col \<Rightarrow>
      if \<not> (0 \<le> fst row \<and> fst row < cd_M self) \<or> \<not> (0 < snd row \<and> snd row \<le> cd_M self)
      then Inl (SPWValueError (Between 0 (cd_M self)) ''row'' (ActSlice (fst row) (snd row)))
      else if \<not> (0 \<le> fst col \<and> fst col < cd_N self) \<or> \<not> (0 < snd col \<and> snd col \<le> cd_N self)
      then Inl (SPWValueError (Between 0 (cd_N self)) ''col'' (ActSlice (fst col) (snd col)))
      else
     (case where_item (map (in_range (fst row)) (cd_rows self)) of
        Inl exc \<Rightarrow> Inl exc | Inr i1 \<Rightarrow>
     (case where_item (map (in_range (snd row - 1)) (cd_rows self)) of
        Inl exc \<Rightarrow> Inl exc | Inr i2 \<Rightarrow>
      let cs = (Some (fst col), Some (snd col)) in
      if i1 \<noteq> i2
      then vstack st
             ([Sliced (Handle (cd_data self ! i1))
                 (Some (fst row - fst (cd_rows self ! i1)), None) cs]
              @ map (\<lambda>i. Sliced (Handle (cd_data self ! i)) (None, None) cs) [i1 + 1..<i2]
              @ [Sliced (Handle (cd_data self ! i2))
                   (None, Some (snd row - fst (cd_rows self ! i2))) cs])
      else
        Inr (Sliced
               (Sliced (Handle (cd_data self ! i1))
                  (Some (fst row - fst (cd_rows self ! i1)), Some (snd row - fst (cd_rows self ! i1)))
                  (None, None))
               (None, None) cs))))))"

text \<open>
  The start and stop values that \<^verbatim>\<open>__getitem__\<close> assigns to a selector that is a
  number (\<^verbatim>\<open>slice(int(q), int(q + 1))\<close>) or a slice (an absent start is 0, an absent
  stop the extent); used to state properties, not by the operations.
\<close>

definition selector_range :: "selector \<Rightarrow> int \<Rightarrow> (int \<times> int) option" where
  "selector_range q ext =
     (case q of
        Num x \<Rightarrow> Some (x, x + 1)
      | Slice start stop \<Rightarrow>
          Some (case start of None \<Rightarrow> 0 | Some a \<Rightarrow> a, case stop of None \<Rightarrow> ext | Some b \<Rightarrow> b)
      | Other \<Rightarrow> None)"

text \<open>
  The rows of a 2-d array agree with its shape: as many rows as the first dimension says,
  each as long as the second. Every numpy array is like that.
\<close>

definition wf_ndarray :: "'a ndarray \<Rightarrow> bool" where
  "wf_ndarray a =
     (case shape a of
        [r, c] \<Rightarrow> length (cells a) = r \<and> list_all (\<lambda>row. length row = c) (cells a)
      | _ \<Rightarrow> True)"

text \<open>
  The first global row of chunk \<open>i\<close> when the chunks have \<open>ns\<close> rows: the sum of the
  row numbers before it. Used in the proofs to describe \<^verbatim>\<open>_rows\<close>.
\<close>

definition row_start :: "int list \<Rightarrow> nat \<Rightarrow> int" where
  "row_start ns i = sum_list (take i ns)"

text \<open>The number of rows of all chunks of a list together, as a mathematical integer.\<close>

definition total_rows :: "'a store \<Rightarrow> addr list \<Rightarrow> int" where
  "total_rows st chunk_list = sum_list (map (\<lambda>chunk. int (shape (st chunk) ! 0)) chunk_list)"

text \<open>
  The object \<open>cd\<close> was built from the chunks \<open>cl\<close> and no running sum wrapped around;
  an abbreviation for the lemmas below.
\<close>

definition constructed :: "'a store \<Rightarrow> addr list \<Rightarrow> ChunkData \<Rightarrow> bool" where
  "constructed st cl cd = (ChunkData_init st cl = Inr cd \<and> total_rows st cl < 2 ^ 63)"

section \<open>Example data\<close>

text \<open>Two chunks of shapes \<open>(3, 2)\<close> and \<open>(2, 2)\<close>, at the references 0 and 1.\<close>

definition ex_store :: "int store" where
  "ex_store p = (if p = 0 then NDArray [3, 2] [[1, 2], [3, 4], [5, 6]]
                 else NDArray [2, 2] [[7, 8], [9, 10]])"

definition ex_cd :: ChunkData where
  "ex_cd = \<lparr>cd_M = 5, cd_N = 2, cd_shape = (5, 2), cd_size = 10, cd_nrows = [3, 2],
            cd_data = [0, 1], cd_rows = [(0, 3), (3, 5)]\<rparr>"

text \<open>The store after the first chunk was written to: its last row starts with 99.\<close>

definition ex_store_mut :: "int store" where
  "ex_store_mut p = (if p = 0 then NDArray [3, 2] [[1, 2], [3, 4], [99, 6]] else ex_store p)"

text \<open>
  Four chunks of \<open>2^62\<close> rows and one column, at the references 0 to 3, and a chunk of
  shape \<open>(5, 1)\<close> at 4. The running sums of the row numbers pass \<open>2^63\<close>.
\<close>

definition big_rows :: "int list list" where
  "big_rows = replicate (2 ^ 62) [0]"

definition wrap_store :: "int store" where
  "wrap_store p = (if p = 4 then NDArray [5, 1] [[1], [2], [3], [4], [5]]
                   else NDArray [2 ^ 62, 1] big_rows)"

definition wrap_cd :: ChunkData where
  "wrap_cd = \<lparr>cd_M = 5, cd_N = 1, cd_shape = (5, 1), cd_size = 5,
              cd_nrows = [2 ^ 62, 2 ^ 62, 2 ^ 62, 2 ^ 62, 5], cd_data = [0, 1, 2, 3, 4],
              cd_rows = [(0, 2 ^ 62), (2 ^ 62, - (2 ^ 63)), (- (2 ^ 63), - (2 ^ 62)),
                         (- (2 ^ 62), 0), (0, 5)]\<rparr>"

text \<open>Chunks of shape \<open>(2^32, 2^30)\<close>, at every reference.\<close>

definition wide_rows :: "int list list" where
  "wide_rows = replicate (2 ^ 32) (replicate (2 ^ 30) 0)"

definition wide_store :: "int store" where
  "wide_store p = NDArray [2 ^ 32, 2 ^ 30] wide_rows"

text \<open>A single chunk of shape \<open>(0, 2)\<close>, and the object built from it.\<close>

definition ex0_store :: "int store" where
  "ex0_store p = NDArray [0, 2] []"

definition ex0_cd :: ChunkData where
  "ex0_cd = \<lparr>cd_M = 0, cd_N = 2, cd_shape = (0, 2), cd_size = 0, cd_nrows = [0],
             cd_data = [0], cd_rows = [(0, 0)]\<rparr>"

section \<open>Properties of the Indexer\<close>

lemma Indexer_getitem_out_of_range:
  "idx < 0 \<or> iterlen self \<le> idx \<Longrightarrow>
   Indexer_getitem self idx =
     (Inl (SPWValueError (Between 0 (iterlen self - 1)) ''idx'' (ActNum idx)), self)"
  by (auto simp: Indexer_getitem_def spw_scalar_parser_def)

lemma Indexer_getitem_in_range:
  "0 \<le> idx \<Longrightarrow> idx < iterlen self \<Longrightarrow>
   Indexer_getitem self idx =
     (if nat idx < length (iterobj self) then Inr (iterobj self ! nat idx) else Inl StopIteration,
      self\<lparr>iterobj := drop (nat idx + 1) (iterobj self)\<rparr>)"
  by (simp add: Indexer_getitem_def spw_scalar_parser_def next_islice_def)


text \<open>
  C1. On a fresh producer of five elements with length 5, the calls \<open>index(0)\<close>, ...,
  \<open>index(4)\<close> in this order would return the five elements once each, in producer order.
  The code does not: every call skips \<open>idx\<close> elements from where the iterator stands.
\<close>

theorem Indexer_sequential_calls_counterexample:
  "fst (index_calls (Indexer_init [10, 20, 30, 40, 50 :: nat] 5) [0, 1, 2, 3, 4])
     \<noteq> [Inr 10, Inr 20, Inr 30, Inr 40, Inr 50]"
  by (simp add: Indexer_init_def Indexer_getitem_def spw_scalar_parser_def next_islice_def)

text \<open>
  C1, as the code has it. Made one after the other on the same producer of
  \<open>a, b, c, d, e\<close>, \<open>index(0)\<close> returns \<open>a\<close>, \<open>index(1)\<close> skips \<open>b\<close> and returns
  \<open>c\<close>, and \<open>index(2)\<close>, \<open>index(3)\<close>, \<open>index(4)\<close> raise \<open>StopIteration\<close> on the
  exhausted producer. Each \<open>index(i)\<close> made as the first call on a fresh producer returns
  the element at position \<open>i\<close>.
\<close>

theorem Indexer_sequential_calls:
  "index_calls (Indexer_init [a, b, c, d, e] 5) [0, 1, 2, 3, 4]
     = ([Inr a, Inr c, Inl StopIteration, Inl StopIteration, Inl StopIteration],
        Indexer_init [] 5)
   \<and> fst (Indexer_getitem (Indexer_init [a, b, c, d, e] 5) 0) = Inr a
   \<and> fst (Indexer_getitem (Indexer_init [a, b, c, d, e] 5) 1) = Inr b
   \<and> fst (Indexer_getitem (Indexer_init [a, b, c, d, e] 5) 2) = Inr c
   \<and> fst (Indexer_getitem (Indexer_init [a, b, c, d, e] 5) 3) = Inr d
   \<and> fst (Indexer_getitem (Indexer_init [a, b, c, d, e] 5) 4) = Inr e"
  by (simp add: Indexer_init_def Indexer_getitem_def spw_scalar_parser_def next_islice_def)

text \<open>
  C6. \<open>index(idx)\<close> on an indexer of length \<open>L\<close> raises a bounds error unless
  \<open>0 \<le> idx < L\<close>, and leaves the producer alone then. For a valid \<open>idx\<close> it is relative
  to the cursor: it consumes \<open>idx\<close> elements of what the producer has left and returns the
  next one (\<open>StopIteration\<close> if the producer runs out), leaving the producer behind that
  element. So \<open>index(3)\<close> followed by \<open>index(0)\<close> yields the element after the one
  \<open>index(3)\<close> returned, or finds the producer exhausted.
\<close>

theorem Indexer_getitem_cursor_relative:
  "(idx < 0 \<or> iterlen self \<le> idx \<longrightarrow>
      Indexer_getitem self idx =
        (Inl (SPWValueError (Between 0 (iterlen self - 1)) ''idx'' (ActNum idx)), self))
   \<and> (0 \<le> idx \<and> idx < iterlen self \<longrightarrow>
      Indexer_getitem self idx =
        (if nat idx < length (iterobj self) then Inr (iterobj self ! nat idx)
         else Inl StopIteration,
         self\<lparr>iterobj := drop (nat idx + 1) (iterobj self)\<rparr>))
   \<and> (4 \<le> iterlen self \<longrightarrow>
      fst (Indexer_getitem (snd (Indexer_getitem self 3)) 0) =
        (if 4 < length (iterobj self) then Inr (iterobj self ! 4) else Inl StopIteration))"
proof (intro conjI impI)
  assume "idx < 0 \<or> iterlen self \<le> idx"
  then show "Indexer_getitem self idx =
        (Inl (SPWValueError (Between 0 (iterlen self - 1)) ''idx'' (ActNum idx)), self)"
    by (rule Indexer_getitem_out_of_range)
next
  assume "0 \<le> idx \<and> idx < iterlen self"
  then show "Indexer_getitem self idx =
        (if nat idx < length (iterobj self) then Inr (iterobj self ! nat idx)
         else Inl StopIteration,
         self\<lparr>iterobj := drop (nat idx + 1) (iterobj self)\<rparr>)"
    by (simp add: Indexer_getitem_in_range)
next
  assume L: "4 \<le> iterlen self"
  have first: "snd (Indexer_getitem self 3) = self\<lparr>iterobj := drop 4 (iterobj self)\<rparr>"
    using L by (simp add: Indexer_getitem_in_range)
  have "fst (Indexer_getitem (self\<lparr>iterobj := drop 4 (iterobj self)\<rparr>) 0) =
        (if 0 < length (drop 4 (iterobj self)) then Inr (drop 4 (iterobj self) ! 0)
         else Inl StopIteration)"
    using L by (simp add: Indexer_getitem_in_range)
  then show "fst (Indexer_getitem (snd (Indexer_getitem self 3)) 0) =
        (if 4 < length (iterobj self) then Inr (iterobj self ! 4) else Inl StopIteration)"
    unfolding first by simp
qed

theorem Indexer_getitem_cursor_relative_witness:
  "Indexer_getitem (Indexer_init [10, 20, 30, 40, 50 :: nat] 5) 5 =
     (Inl (SPWValueError (Between 0 4) ''idx'' (ActNum 5)), Indexer_init [10, 20, 30, 40, 50] 5)
   \<and> Indexer_getitem (Indexer_init [10, 20, 30, 40, 50 :: nat] 5) 3 =
     (Inr 40, Indexer_init [50] 5)
   \<and> fst (Indexer_getitem (snd (Indexer_getitem (Indexer_init [10, 20, 30, 40, 50 :: nat] 5) 3)) 0)
     = Inr 50"
  using Indexer_getitem_cursor_relative [of 5 "Indexer_init [10, 20, 30, 40, 50 :: nat] 5"]
        Indexer_getitem_cursor_relative [of 3 "Indexer_init [10, 20, 30, 40, 50 :: nat] 5"]
  by (simp add: Indexer_init_def)

section \<open>Construction of a ChunkData\<close>

text \<open>
  C4. Constructing a \<^verbatim>\<open>ChunkData\<close> from the empty chunk list fails and no object
  is returned. The error is the \<open>IndexError\<close> that \<^verbatim>\<open>shapes[0]\<close> raises inside the
  test of the column numbers; it is none of the errors the constructor raises itself
  for a chunk list it refuses.
\<close>

theorem ChunkData_init_empty:
  "ChunkData_init st [] = Inl IndexError
   \<and> ChunkData_init st [] \<noteq> Inl (SPWValueError legal varname act)
   \<and> ChunkData_init st [] \<noteq> Inl (SPWTypeError varname expected)"
  by (simp add: ChunkData_init_def list_index_def)

lemma int64_id: "- (2 ^ 63) \<le> x \<Longrightarrow> x < 2 ^ 63 \<Longrightarrow> int64 x = x"
  by (simp add: int64_def)

lemma ex_cd_init: "ChunkData_init ex_store [0, 1] = Inr ex_cd"
  by (simp add: ChunkData_init_def list_index_def ex_store_def ex_cd_def cumsum_def int64_def)

lemma wrap_cd_init: "ChunkData_init wrap_store [0, 1, 2, 3, 4] = Inr wrap_cd"
  by (simp add: ChunkData_init_def list_index_def wrap_store_def wrap_cd_def cumsum_def
        int64_def)

text \<open>The running sums behind \<^verbatim>\<open>_rows\<close>, as long as they stay below \<open>2^63\<close>.\<close>

lemma cumsum_from_length: "length (cumsum_from acc xs) = length xs"
  by (induction xs arbitrary: acc) simp_all

lemma cumsum_from_nth:
  "0 \<le> acc \<Longrightarrow> \<forall>x\<in>set xs. 0 \<le> x \<Longrightarrow> acc + sum_list xs < 2 ^ 63 \<Longrightarrow> i < length xs \<Longrightarrow>
   cumsum_from acc xs ! i = acc + sum_list (take (Suc i) xs)"
proof (induction xs arbitrary: acc i)
  case Nil
  then show ?case by simp
next
  case (Cons x xs)
  have "0 \<le> sum_list xs" using Cons.prems(2) by (intro sum_list_nonneg) simp
  then have w: "int64 (acc + x) = acc + x"
    using Cons.prems by (intro int64_id) simp_all
  show ?case
  proof (cases i)
    case 0
    then show ?thesis by (simp add: w)
  next
    case (Suc k)
    have "cumsum_from (acc + x) xs ! k = acc + x + sum_list (take (Suc k) xs)"
      using Cons.prems Suc by (intro Cons.IH) simp_all
    then show ?thesis using Suc by (simp add: w)
  qed
qed

lemma cumsum_from_last:
  "0 \<le> acc \<Longrightarrow> \<forall>x\<in>set xs. 0 \<le> x \<Longrightarrow> acc + sum_list xs < 2 ^ 63 \<Longrightarrow> xs \<noteq> [] \<Longrightarrow>
   last (cumsum_from acc xs) = acc + sum_list xs"
proof (induction xs arbitrary: acc)
  case Nil
  then show ?case by simp
next
  case (Cons x xs)
  have "0 \<le> sum_list xs" using Cons.prems(2) by (intro sum_list_nonneg) simp
  then have w: "int64 (acc + x) = acc + x"
    using Cons.prems by (intro int64_id) simp_all
  show ?case
  proof (cases "xs = []")
    case True
    then show ?thesis by (simp add: w)
  next
    case False
    have "last (cumsum_from (acc + x) xs) = acc + x + sum_list xs"
      using Cons.prems False by (intro Cons.IH) simp_all
    moreover have "cumsum_from (acc + x) xs \<noteq> []"
      using False by (cases xs) simp_all
    ultimately show ?thesis by (simp add: w)
  qed
qed

lemma row_start_Suc:
  "i < length ns \<Longrightarrow> row_start ns (Suc i) = row_start ns i + ns ! i"
  by (simp add: row_start_def take_Suc_conv_app_nth)

lemma row_start_mono:
  assumes "\<forall>x\<in>set ns. 0 \<le> x" "i \<le> j"
  shows "row_start ns i \<le> row_start ns j"
proof -
  have "take j ns = take i ns @ take (j - i) (drop i ns)"
    using assms(2) by (metis le_add_diff_inverse take_add)
  moreover have "0 \<le> sum_list (take (j - i) (drop i ns))"
    using assms(1) by (intro sum_list_nonneg) (meson in_set_dropD in_set_takeD)
  ultimately show ?thesis by (simp add: row_start_def)
qed

lemma row_start_0: "row_start ns 0 = 0"
  by (simp add: row_start_def)

lemma row_start_all: "length ns \<le> k \<Longrightarrow> row_start ns k = sum_list ns"
  by (simp add: row_start_def)

text \<open>What a successful construction establishes when no running sum wraps around.\<close>

lemma init_facts:
  assumes "constructed st cl cd"
  shows "cl \<noteq> []"
    and "cd_data cd = cl"
    and "length (cd_nrows cd) = length cl"
    and "length (cd_rows cd) = length cl"
    and "0 \<le> cd_N cd"
    and "\<forall>i<length cl. 0 \<le> cd_nrows cd ! i \<and> shape (st (cl ! i)) = [nat (cd_nrows cd ! i), nat (cd_N cd)]"
    and "\<forall>i<length cl. cd_rows cd ! i = (row_start (cd_nrows cd) i, row_start (cd_nrows cd) (Suc i))"
    and "cd_M cd = sum_list (cd_nrows cd)"
    and "cd_shape cd = (cd_M cd, cd_N cd)"
    and "sum_list (cd_nrows cd) < 2 ^ 63"
proof -
  define shapes where "shapes = map (\<lambda>chunk. shape (st chunk)) cl"
  define nrows where "nrows = map (\<lambda>s. int (s ! 0)) shapes"
  define cumlen where "cumlen = cumsum nrows"
  define N where "N = int (shape (st (hd cl)) ! 1)"
  have init: "ChunkData_init st cl = Inr cd" and fits: "total_rows st cl < 2 ^ 63"
    using assms by (simp_all add: constructed_def)
  have rank: "\<not> list_ex (\<lambda>s. length s \<noteq> 2) shapes"
    and ne: "shapes \<noteq> []"
    and cols: "map (\<lambda>s. s ! 1) shapes = replicate (length shapes) (shapes ! 0 ! 1)"
    and cd: "cd = \<lparr>cd_M = last cumlen, cd_N = N, cd_shape = (last cumlen, N),
                   cd_size = int64 (last cumlen * N), cd_nrows = nrows, cd_data = cl,
                   cd_rows = zip (map2 (\<lambda>c n. int64 (c - n)) cumlen nrows) cumlen\<rparr>"
    using init
    by (auto simp: ChunkData_init_def Let_def list_index_def shapes_def nrows_def cumlen_def
          N_def split: if_splits)
  have nn: "\<forall>x\<in>set nrows. 0 \<le> x" by (auto simp: nrows_def)
  have total: "sum_list nrows < 2 ^ 63"
    using fits by (simp add: total_rows_def nrows_def shapes_def comp_def)
  show ne_cl: "cl \<noteq> []" using ne by (simp add: shapes_def)
  show "cd_data cd = cl" by (simp add: cd)
  show "length (cd_nrows cd) = length cl" by (simp add: cd nrows_def shapes_def)
  have len_cum: "length cumlen = length cl"
    by (simp add: cumlen_def cumsum_def cumsum_from_length nrows_def shapes_def)
  show "length (cd_rows cd) = length cl"
    by (simp add: cd len_cum nrows_def shapes_def)
  show "0 \<le> cd_N cd" by (simp add: cd N_def)
  have hdN: "int (shapes ! 0 ! 1) = N"
    using ne_cl by (simp add: N_def shapes_def hd_conv_nth)
  show "\<forall>i<length cl. 0 \<le> cd_nrows cd ! i \<and> shape (st (cl ! i)) = [nat (cd_nrows cd ! i), nat (cd_N cd)]"
  proof (intro allI impI)
    fix i assume i: "i < length cl"
    then have mem: "shapes ! i \<in> set shapes" by (simp add: shapes_def)
    with rank have len2: "length (shapes ! i) = 2" by (auto simp: list_ex_iff)
    have "map (\<lambda>s. s ! 1) shapes ! i = replicate (length shapes) (shapes ! 0 ! 1) ! i"
      using cols by simp
    then have c: "shapes ! i ! 1 = shapes ! 0 ! 1"
      using i by (simp add: shapes_def)
    obtain r c' where rc: "shapes ! i = [r, c']"
      using len2 by (cases "shapes ! i"; cases "tl (shapes ! i)") auto
    have "shape (st (cl ! i)) = shapes ! i" using i by (simp add: shapes_def)
    moreover have "nat (cd_nrows cd ! i) = r"
      using i rc by (simp add: cd nrows_def shapes_def)
    moreover have "nat (cd_N cd) = c'"
      using c rc hdN by (simp add: cd)
    moreover have "0 \<le> cd_nrows cd ! i"
      using i by (simp add: cd nrows_def shapes_def)
    ultimately show "0 \<le> cd_nrows cd ! i \<and> shape (st (cl ! i)) = [nat (cd_nrows cd ! i), nat (cd_N cd)]"
      using rc by simp
  qed
  have len_n: "length nrows = length cl" by (simp add: nrows_def shapes_def)
  show "\<forall>i<length cl. cd_rows cd ! i = (row_start (cd_nrows cd) i, row_start (cd_nrows cd) (Suc i))"
  proof (intro allI impI)
    fix i assume i: "i < length cl"
    have cum: "cumlen ! i = row_start nrows (Suc i)"
      using i len_n nn total
      by (simp add: cumlen_def cumsum_def cumsum_from_nth row_start_def)
    have suc: "row_start nrows (Suc i) = row_start nrows i + nrows ! i"
      using i len_n by (simp add: row_start_Suc)
    have "0 \<le> row_start nrows i"
      using row_start_mono [OF nn, of 0 i] by (simp add: row_start_0)
    moreover have "row_start nrows i \<le> sum_list nrows"
      using row_start_mono [OF nn, of i "length nrows"] i len_n by (simp add: row_start_all)
    ultimately have "int64 (row_start nrows i) = row_start nrows i"
      using total by (intro int64_id) simp_all
    then have "int64 (cumlen ! i - nrows ! i) = row_start nrows i"
      using cum suc by simp
    then show "cd_rows cd ! i = (row_start (cd_nrows cd) i, row_start (cd_nrows cd) (Suc i))"
      using i len_n len_cum cum by (simp add: cd)
  qed
  have "nrows \<noteq> []" using ne_cl len_n by auto
  then show "cd_M cd = sum_list (cd_nrows cd)"
    using nn total by (simp add: cd cumlen_def cumsum_def cumsum_from_last)
  show "cd_shape cd = (cd_M cd, cd_N cd)" by (simp add: cd)
  show "sum_list (cd_nrows cd) < 2 ^ 63" using total by (simp add: cd)
qed

text \<open>
  C8. The shape would be \<open>(M, N)\<close> with \<open>M\<close> the sum of the chunks' row numbers and
  the size \<open>M * N\<close> after every successful construction. The sum and the product are
  64-bit integers in the code: two chunks of \<open>2^62\<close> rows are accepted with
  \<open>M = -2^63\<close>, and two chunks of shape \<open>(2^32, 2^30)\<close> with the size \<open>-2^63\<close>.
\<close>

theorem ChunkData_shape_size_counterexample:
  "ChunkData_init wrap_store [0, 1] =
     Inr \<lparr>cd_M = - (2 ^ 63), cd_N = 1, cd_shape = (- (2 ^ 63), 1), cd_size = - (2 ^ 63),
          cd_nrows = [2 ^ 62, 2 ^ 62], cd_data = [0, 1],
          cd_rows = [(0, 2 ^ 62), (2 ^ 62, - (2 ^ 63))]\<rparr>
   \<and> total_rows wrap_store [0, 1] = 2 ^ 63
   \<and> ChunkData_init wide_store [0, 1] =
     Inr \<lparr>cd_M = 2 ^ 33, cd_N = 2 ^ 30, cd_shape = (2 ^ 33, 2 ^ 30), cd_size = - (2 ^ 63),
          cd_nrows = [2 ^ 32, 2 ^ 32], cd_data = [0, 1],
          cd_rows = [(0, 2 ^ 32), (2 ^ 32, 2 ^ 33)]\<rparr>
   \<and> total_rows wide_store [0, 1] * 2 ^ 30 = 2 ^ 63"
  by (simp add: ChunkData_init_def list_index_def wrap_store_def wide_store_def cumsum_def
        int64_def total_rows_def)

text \<open>
  C8, as the code has it. Every non-empty list of chunks of shapes \<open>(rows, N)\<close> with the
  same \<open>N\<close>, whose row numbers add up to an \<open>M\<close> below \<open>2^63\<close> with \<open>M * N\<close> below
  \<open>2^63\<close> too, is accepted; \<^verbatim>\<open>shape\<close> is then \<open>(M, N)\<close> and \<^verbatim>\<open>size\<close> is
  \<open>M * N\<close>. For the chunks of shapes \<open>(3, 2)\<close> and \<open>(2, 2)\<close> this gives the shape
  \<open>(5, 2)\<close> and the size 10.
\<close>

theorem ChunkData_shape_size:
  assumes ne: "chunks \<noteq> []"
      and shp: "\<forall>p\<in>set chunks. \<exists>r. shape (st p) = [r, n]"
      and rows: "total_rows st chunks < 2 ^ 63"
      and sz: "total_rows st chunks * int n < 2 ^ 63"
  shows "\<exists>cd. ChunkData_init st chunks = Inr cd
           \<and> cd_M cd = total_rows st chunks
           \<and> cd_N cd = int n
           \<and> cd_shape cd = (total_rows st chunks, int n)
           \<and> cd_size cd = total_rows st chunks * int n"
proof -
  define shapes where "shapes = map (\<lambda>chunk. shape (st chunk)) chunks"
  define nrows where "nrows = map (\<lambda>s. int (s ! 0)) shapes"
  have two: "\<forall>s\<in>set shapes. length s = 2 \<and> s ! 1 = n"
    using shp by (auto simp: shapes_def)
  have rank: "\<not> list_ex (\<lambda>s. length s \<noteq> 2) shapes"
    using two by (simp add: list_ex_iff)
  have ne': "shapes \<noteq> []" using ne by (simp add: shapes_def)
  then have first: "list_index shapes 0 = Inr (shapes ! 0)"
    by (simp add: list_index_def)
  have "shapes ! 0 \<in> set shapes" using ne' by simp
  then have n0: "shapes ! 0 ! 1 = n" using two by blast
  have cols: "map (\<lambda>s. s ! 1) shapes = replicate (length shapes) (shapes ! 0 ! 1)"
    using two n0 by (intro nth_equalityI) simp_all
  have N: "shape (st (hd chunks)) ! Suc 0 = n"
    using ne shp by (cases chunks) auto
  have nn: "\<forall>x\<in>set nrows. 0 \<le> x" by (auto simp: nrows_def)
  have total: "sum_list nrows = total_rows st chunks"
    by (simp add: total_rows_def nrows_def shapes_def comp_def)
  have "nrows \<noteq> []" using ne' by (simp add: nrows_def)
  then have M: "last (cumsum nrows) = total_rows st chunks"
    using nn rows total by (simp add: cumsum_def cumsum_from_last)
  have "0 \<le> total_rows st chunks"
    using nn total sum_list_nonneg [of nrows] by simp
  then have "0 \<le> total_rows st chunks * int n" by simp
  then have size: "int64 (total_rows st chunks * int n) = total_rows st chunks * int n"
    using sz by (intro int64_id) simp_all
  have "ChunkData_init st chunks =
          Inr \<lparr>cd_M = total_rows st chunks, cd_N = int n,
               cd_shape = (total_rows st chunks, int n),
               cd_size = total_rows st chunks * int n, cd_nrows = nrows, cd_data = chunks,
               cd_rows = zip (map2 (\<lambda>c n. int64 (c - n)) (cumsum nrows) nrows) (cumsum nrows)\<rparr>"
    unfolding ChunkData_init_def Let_def shapes_def [symmetric] nrows_def [symmetric]
    using rank cols N by (simp add: first M size)
  then show ?thesis by simp
qed

theorem ChunkData_shape_size_witness:
  "\<exists>cd. ChunkData_init ex_store [0, 1] = Inr cd \<and> cd_shape cd = (5, 2) \<and> cd_size cd = 10"
  using ChunkData_shape_size [where st = ex_store and chunks = "[0, 1]" and n = 2]
  by (auto simp: ex_store_def total_rows_def)

section \<open>Bounds errors of a query\<close>

lemma resolve_cases:
  assumes "selector_range q ext = Some r"
  shows "resolve q vn ext = Inr r \<or>
         (\<exists>x. q = Num x \<and> r = (x, x + 1) \<and> (x < 0 \<or> ext < x)
              \<and> resolve q vn ext = Inl (SPWValueError (Between 0 ext) vn (ActNum x)))"
  using assms
  by (auto simp: resolve_def selector_range_def spw_scalar_parser_def split: selector.splits)

lemma getitem_row_parser_error:
  "x < 0 \<or> cd_M cd < x \<Longrightarrow>
   ChunkData_getitem st cd (Num x, qcol) =
     Inl (SPWValueError (Between 0 (cd_M cd)) ''row'' (ActNum x))"
  by (auto simp: ChunkData_getitem_def resolve_def spw_scalar_parser_def)

lemma getitem_col_parser_error:
  "resolve qrow ''row'' (cd_M cd) = Inr row \<Longrightarrow> y < 0 \<or> cd_N cd < y \<Longrightarrow>
   ChunkData_getitem st cd (qrow, Num y) =
     Inl (SPWValueError (Between 0 (cd_N cd)) ''col'' (ActNum y))"
  by (auto simp: ChunkData_getitem_def resolve_def spw_scalar_parser_def)

lemma getitem_row_bounds_error:
  "resolve qrow ''row'' (cd_M cd) = Inr row \<Longrightarrow> resolve qcol ''col'' (cd_N cd) = Inr col \<Longrightarrow>
   fst row < 0 \<or> cd_M cd \<le> fst row \<or> snd row \<le> 0 \<or> cd_M cd < snd row \<Longrightarrow>
   ChunkData_getitem st cd (qrow, qcol) =
     Inl (SPWValueError (Between 0 (cd_M cd)) ''row'' (ActSlice (fst row) (snd row)))"
  by (auto simp: ChunkData_getitem_def)

lemma getitem_col_bounds_error:
  "resolve qrow ''row'' (cd_M cd) = Inr row \<Longrightarrow> resolve qcol ''col'' (cd_N cd) = Inr col \<Longrightarrow>
   \<not> (fst row < 0 \<or> cd_M cd \<le> fst row \<or> snd row \<le> 0 \<or> cd_M cd < snd row) \<Longrightarrow>
   fst col < 0 \<or> cd_N cd \<le> fst col \<or> snd col \<le> 0 \<or> cd_N cd < snd col \<Longrightarrow>
   ChunkData_getitem st cd (qrow, qcol) =
     Inl (SPWValueError (Between 0 (cd_N cd)) ''col'' (ActSlice (fst col) (snd col)))"
  by (auto simp: ChunkData_getitem_def)

lemma bounds_error_cases:
  assumes row: "selector_range qrow (cd_M cd) = Some row"
      and col: "selector_range qcol (cd_N cd) = Some col"
      and out: "(fst row < 0 \<or> cd_M cd \<le> fst row \<or> snd row \<le> 0 \<or> cd_M cd < snd row)
              \<or> (fst col < 0 \<or> cd_N cd \<le> fst col \<or> snd col \<le> 0 \<or> cd_N cd < snd col)"
  shows "\<exists>act.
           (ChunkData_getitem st cd (qrow, qcol)
              = Inl (SPWValueError (Between 0 (cd_M cd)) ''row'' act)
            \<and> (act = ActNum (fst row) \<or> act = ActSlice (fst row) (snd row))
            \<and> (fst row < 0 \<or> cd_M cd \<le> fst row \<or> snd row \<le> 0 \<or> cd_M cd < snd row))
         \<or> (ChunkData_getitem st cd (qrow, qcol)
              = Inl (SPWValueError (Between 0 (cd_N cd)) ''col'' act)
            \<and> (act = ActNum (fst col) \<or> act = ActSlice (fst col) (snd col))
            \<and> (fst col < 0 \<or> cd_N cd \<le> fst col \<or> snd col \<le> 0 \<or> cd_N cd < snd col))"
proof -
  consider (rowparse) x where "qrow = Num x" "row = (x, x + 1)" "x < 0 \<or> cd_M cd < x"
    | (rowok) "resolve qrow ''row'' (cd_M cd) = Inr row"
    using resolve_cases [OF row, of "''row''"] by blast
  then show ?thesis
  proof cases
    case rowparse
    then show ?thesis using getitem_row_parser_error [of x cd st qcol] by auto
  next
    case rowok
    consider (colparse) y where "qcol = Num y" "col = (y, y + 1)" "y < 0 \<or> cd_N cd < y"
      | (colok) "resolve qcol ''col'' (cd_N cd) = Inr col"
      using resolve_cases [OF col, of "''col''"] by blast
    then show ?thesis
    proof cases
      case colparse
      then show ?thesis using getitem_col_parser_error [OF rowok, of y st] by auto
    next
      case colok
      show ?thesis
      proof (cases "fst row < 0 \<or> cd_M cd \<le> fst row \<or> snd row \<le> 0 \<or> cd_M cd < snd row")
        case True
        then show ?thesis using getitem_row_bounds_error [OF rowok colok, of st] by blast
      next
        case False
        with out have "fst col < 0 \<or> cd_N cd \<le> fst col \<or> snd col \<le> 0 \<or> cd_N cd < snd col"
          by blast
        then show ?thesis using getitem_col_bounds_error [OF rowok colok False, of st] by blast
      qed
    qed
  qed
qed

text \<open>
  C5. Let both selectors of a query be numbers or slices, with the ranges \<open>row\<close> and
  \<open>col\<close> that \<^verbatim>\<open>__getitem__\<close> assigns to them. If one of the ranges is not within its
  extent (a start below 0 or not below the extent, a stop not above 0 or above the extent),
  the query fails with a bounds error that names the interval from 0 to \<open>M\<close> with the
  offending row selector, or the interval from 0 to \<open>N\<close> with the offending column
  selector. In particular, whenever the column selector converts without error, a row slice
  with stop \<open>M + 1\<close> and a row slice with start \<open>-1\<close> fail with the bounds error for
  \<open>row\<close> that names 0 and \<open>M\<close>.
\<close>

theorem getitem_out_of_bounds:
  "(selector_range qrow (cd_M cd) = Some row \<and> selector_range qcol (cd_N cd) = Some col
      \<and> ((fst row < 0 \<or> cd_M cd \<le> fst row \<or> snd row \<le> 0 \<or> cd_M cd < snd row)
         \<or> (fst col < 0 \<or> cd_N cd \<le> fst col \<or> snd col \<le> 0 \<or> cd_N cd < snd col))
    \<longrightarrow> (\<exists>act.
           (ChunkData_getitem st cd (qrow, qcol)
              = Inl (SPWValueError (Between 0 (cd_M cd)) ''row'' act)
            \<and> (act = ActNum (fst row) \<or> act = ActSlice (fst row) (snd row))
            \<and> (fst row < 0 \<or> cd_M cd \<le> fst row \<or> snd row \<le> 0 \<or> cd_M cd < snd row))
         \<or> (ChunkData_getitem st cd (qrow, qcol)
              = Inl (SPWValueError (Between 0 (cd_N cd)) ''col'' act)
            \<and> (act = ActNum (fst col) \<or> act = ActSlice (fst col) (snd col))
            \<and> (fst col < 0 \<or> cd_N cd \<le> fst col \<or> snd col \<le> 0 \<or> cd_N cd < snd col))))
   \<and> (resolve qcol ''col'' (cd_N cd) = Inr col
    \<longrightarrow> ChunkData_getitem st cd (Slice (Some a) (Some (cd_M cd + 1)), qcol)
          = Inl (SPWValueError (Between 0 (cd_M cd)) ''row'' (ActSlice a (cd_M cd + 1)))
        \<and> ChunkData_getitem st cd (Slice (Some (- 1)) (Some b), qcol)
          = Inl (SPWValueError (Between 0 (cd_M cd)) ''row'' (ActSlice (- 1) b)))"
proof (intro conjI impI)
  assume "selector_range qrow (cd_M cd) = Some row \<and> selector_range qcol (cd_N cd) = Some col
      \<and> ((fst row < 0 \<or> cd_M cd \<le> fst row \<or> snd row \<le> 0 \<or> cd_M cd < snd row)
         \<or> (fst col < 0 \<or> cd_N cd \<le> fst col \<or> snd col \<le> 0 \<or> cd_N cd < snd col))"
  then show "\<exists>act.
           (ChunkData_getitem st cd (qrow, qcol)
              = Inl (SPWValueError (Between 0 (cd_M cd)) ''row'' act)
            \<and> (act = ActNum (fst row) \<or> act = ActSlice (fst row) (snd row))
            \<and> (fst row < 0 \<or> cd_M cd \<le> fst row \<or> snd row \<le> 0 \<or> cd_M cd < snd row))
         \<or> (ChunkData_getitem st cd (qrow, qcol)
              = Inl (SPWValueError (Between 0 (cd_N cd)) ''col'' act)
            \<and> (act = ActNum (fst col) \<or> act = ActSlice (fst col) (snd col))
            \<and> (fst col < 0 \<or> cd_N cd \<le> fst col \<or> snd col \<le> 0 \<or> cd_N cd < snd col))"
    using bounds_error_cases [of qrow cd row qcol col st] by blast
next
  assume col: "resolve qcol ''col'' (cd_N cd) = Inr col"
  have "resolve (Slice (Some a) (Some (cd_M cd + 1))) ''row'' (cd_M cd) = Inr (a, cd_M cd + 1)"
    by (simp add: resolve_def)
  from getitem_row_bounds_error [OF this col, of st]
  show "ChunkData_getitem st cd (Slice (Some a) (Some (cd_M cd + 1)), qcol)
          = Inl (SPWValueError (Between 0 (cd_M cd)) ''row'' (ActSlice a (cd_M cd + 1)))"
    by simp
next
  assume col: "resolve qcol ''col'' (cd_N cd) = Inr col"
  have "resolve (Slice (Some (- 1)) (Some b)) ''row'' (cd_M cd) = Inr (- 1, b)"
    by (simp add: resolve_def)
  from getitem_row_bounds_error [OF this col, of st]
  show "ChunkData_getitem st cd (Slice (Some (- 1)) (Some b), qcol)
          = Inl (SPWValueError (Between 0 (cd_M cd)) ''row'' (ActSlice (- 1) b))"
    by simp
qed

theorem getitem_out_of_bounds_witness:
  "ChunkData_getitem ex_store ex_cd (Slice (Some 0) (Some 6), Slice None None)
     = Inl (SPWValueError (Between 0 5) ''row'' (ActSlice 0 6))
   \<and> ChunkData_getitem ex_store ex_cd (Slice (Some (- 1)) (Some 2), Slice None None)
     = Inl (SPWValueError (Between 0 5) ''row'' (ActSlice (- 1) 2))
   \<and> (ChunkData_getitem ex_store ex_cd (Num 1, Slice (Some 0) (Some 3))
         = Inl (SPWValueError (Between 0 2) ''col'' (ActNum 0))
      \<or> ChunkData_getitem ex_store ex_cd (Num 1, Slice (Some 0) (Some 3))
         = Inl (SPWValueError (Between 0 2) ''col'' (ActSlice 0 3)))"
  using getitem_out_of_bounds [where qrow = "Slice None None" and cd = ex_cd and row = "(0, 5)"
          and qcol = "Slice None None" and col = "(0, 2)" and a = 0 and st = ex_store and b = 2]
        getitem_out_of_bounds [where qrow = "Num 1" and cd = ex_cd and row = "(1, 2)"
          and qcol = "Slice (Some 0) (Some 3)" and col = "(0, 3)" and a = 0 and st = ex_store
          and b = 2]
  by (auto simp: selector_range_def resolve_def ex_cd_def)

text \<open>
  C10. The row selector \<^verbatim>\<open>slice(0, 0)\<close> is rejected with a bounds error, since the
  test asks for a stop above 0: whenever the column selector converts without error the
  query fails with the bounds error for \<open>row\<close>, and with any column selector that is a
  number or a slice it fails with some bounds error.
\<close>

theorem getitem_empty_row_range_rejected:
  "(resolve qcol ''col'' (cd_N cd) = Inr col
      \<longrightarrow> ChunkData_getitem st cd (Slice (Some 0) (Some 0), qcol)
            = Inl (SPWValueError (Between 0 (cd_M cd)) ''row'' (ActSlice 0 0)))
   \<and> (qcol \<noteq> Other
      \<longrightarrow> (\<exists>ub varname act. ChunkData_getitem st cd (Slice (Some 0) (Some 0), qcol)
            = Inl (SPWValueError (Between 0 ub) varname act)))"
proof (intro conjI impI)
  have row: "resolve (Slice (Some 0) (Some 0)) ''row'' (cd_M cd) = Inr (0, 0)"
    by (simp add: resolve_def)
  {
    assume col: "resolve qcol ''col'' (cd_N cd) = Inr col"
    from getitem_row_bounds_error [OF row col, of st]
    show "ChunkData_getitem st cd (Slice (Some 0) (Some 0), qcol)
            = Inl (SPWValueError (Between 0 (cd_M cd)) ''row'' (ActSlice 0 0))"
      by simp
  }
  assume "qcol \<noteq> Other"
  then obtain c where c: "selector_range qcol (cd_N cd) = Some c"
    by (cases qcol) (simp_all add: selector_range_def)
  have r: "selector_range (Slice (Some 0) (Some 0)) (cd_M cd) = Some (0, 0)"
    by (simp add: selector_range_def)
  from bounds_error_cases [OF r c, of st]
  show "\<exists>ub varname act. ChunkData_getitem st cd (Slice (Some 0) (Some 0), qcol)
            = Inl (SPWValueError (Between 0 ub) varname act)"
    by auto
qed

theorem getitem_empty_row_range_rejected_witness:
  "ChunkData_getitem ex_store ex_cd (Slice (Some 0) (Some 0), Slice None None)
     = Inl (SPWValueError (Between 0 5) ''row'' (ActSlice 0 0))"
  using getitem_empty_row_range_rejected [where qcol = "Slice None None" and cd = ex_cd
          and col = "(0, 2)" and st = ex_store]
  by (simp add: resolve_def ex_cd_def)

section \<open>Locating the chunks of a row range\<close>

lemma where_item_unique:
  assumes "i < length bs" "bs ! i" "\<forall>j<length bs. j \<noteq> i \<longrightarrow> \<not> bs ! j"
  shows "where_item bs = Inr i"
proof -
  have split: "[0..<length bs] = [0..<i] @ i # [Suc i..<length bs]"
    using assms(1) by (metis le0 less_imp_le_nat upt_add_eq_append upt_conv_Cons le_add_diff_inverse)
  have "filter (\<lambda>k. bs ! k) [0..<i] = []"
    using assms by (auto simp: filter_empty_conv)
  moreover have "filter (\<lambda>k. bs ! k) [Suc i..<length bs] = []"
    using assms by (auto simp: filter_empty_conv)
  ultimately have "filter (\<lambda>k. bs ! k) [0..<length bs] = [i]"
    using assms(2) by (subst split) simp
  then show ?thesis by (simp add: where_item_def)
qed

lemma rows_nth:
  assumes "constructed st cl cd" "i < length cl"
  shows "fst (cd_rows cd ! i) = row_start (cd_nrows cd) i"
    and "snd (cd_rows cd ! i) = row_start (cd_nrows cd) (Suc i)"
  using init_facts(7) [OF assms(1)] assms(2) by simp_all

lemma nrows_nonneg:
  assumes "constructed st cl cd"
  shows "\<forall>x\<in>set (cd_nrows cd). 0 \<le> x"
  using init_facts(3,6) [OF assms] by (metis in_set_conv_nth)

lemma rows_bounds:
  assumes init: "constructed st cl cd" and i: "i < length cl"
  shows "0 \<le> fst (cd_rows cd ! i)" and "snd (cd_rows cd ! i) \<le> cd_M cd"
    and "snd (cd_rows cd ! i) = fst (cd_rows cd ! i) + cd_nrows cd ! i"
proof -
  have nn: "\<forall>x\<in>set (cd_nrows cd). 0 \<le> x" by (rule nrows_nonneg [OF init])
  have len: "length (cd_nrows cd) = length cl" by (rule init_facts(3) [OF init])
  have "row_start (cd_nrows cd) 0 \<le> row_start (cd_nrows cd) i"
    by (rule row_start_mono [OF nn]) simp
  then show "0 \<le> fst (cd_rows cd ! i)"
    by (simp add: rows_nth [OF init i] row_start_0)
  have "row_start (cd_nrows cd) (Suc i) \<le> row_start (cd_nrows cd) (length cl)"
    using i by (intro row_start_mono [OF nn]) simp
  then show "snd (cd_rows cd ! i) \<le> cd_M cd"
    by (simp add: rows_nth [OF init i] init_facts(8) [OF init] row_start_all len)
  show "snd (cd_rows cd ! i) = fst (cd_rows cd ! i) + cd_nrows cd ! i"
    using i len by (simp add: rows_nth [OF init i] row_start_Suc)
qed

lemma rows_ordered:
  assumes init: "constructed st cl cd" and "i < j" "j < length cl"
  shows "snd (cd_rows cd ! i) \<le> fst (cd_rows cd ! j)"
proof -
  have "row_start (cd_nrows cd) (Suc i) \<le> row_start (cd_nrows cd) j"
    using assms(2) by (intro row_start_mono [OF nrows_nonneg [OF init]]) simp
  then show ?thesis
    using assms by (simp add: rows_nth [OF init])
qed

lemma locate_chunk:
  assumes init: "constructed st cl cd"
      and i: "i < length cl" and x: "in_range x (cd_rows cd ! i)"
  shows "where_item (map (in_range x) (cd_rows cd)) = Inr i"
proof (rule where_item_unique)
  have len: "length (cd_rows cd) = length cl" by (rule init_facts(4) [OF init])
  show "i < length (map (in_range x) (cd_rows cd))" using i len by simp
  show "map (in_range x) (cd_rows cd) ! i" using i len x by simp
  show "\<forall>j<length (map (in_range x) (cd_rows cd)). j \<noteq> i \<longrightarrow> \<not> map (in_range x) (cd_rows cd) ! j"
  proof (intro allI impI)
    fix j assume j: "j < length (map (in_range x) (cd_rows cd))" and ne: "j \<noteq> i"
    then have j': "j < length cl" using len by simp
    have "\<not> in_range x (cd_rows cd ! j)"
    proof (cases "j < i")
      case True
      from rows_ordered [OF init True i] x show ?thesis by (simp add: in_range_def)
    next
      case False
      with ne have "i < j" by simp
      from rows_ordered [OF init this j'] x show ?thesis by (simp add: in_range_def)
    qed
    then show "\<not> map (in_range x) (cd_rows cd) ! j" using j' len by simp
  qed
qed

lemma chunk_exists:
  assumes init: "constructed st cl cd" and x: "0 \<le> x" "x < cd_M cd"
  shows "\<exists>i<length cl. in_range x (cd_rows cd ! i)"
proof -
  have len: "length (cd_nrows cd) = length cl" by (rule init_facts(3) [OF init])
  have top: "x < row_start (cd_nrows cd) (length cl)"
    using x(2) by (simp add: init_facts(8) [OF init] row_start_all len)
  have bot: "\<not> x < row_start (cd_nrows cd) 0"
    using x(1) by (simp add: row_start_0)
  from ex_least_nat_less [of "\<lambda>k. x < row_start (cd_nrows cd) k", OF top bot]
  obtain k where k: "k < length cl" "\<not> x < row_start (cd_nrows cd) k"
      "x < row_start (cd_nrows cd) (Suc k)"
    by blast
  then have "in_range x (cd_rows cd ! k)"
    by (simp add: in_range_def rows_nth [OF init k(1)])
  with k(1) show ?thesis by blast
qed

lemma in_range_chunk_order:
  assumes init: "constructed st cl cd"
      and "i < length cl" "j < length cl"
      and "in_range x (cd_rows cd ! i)" "in_range y (cd_rows cd ! j)" "y \<le> x"
  shows "j \<le> i"
proof (rule ccontr)
  assume "\<not> j \<le> i"
  then have "i < j" by simp
  from rows_ordered [OF init this assms(3)] assms(4,5,6) show False
    by (simp add: in_range_def)
qed

lemma getitem_located:
  assumes init: "constructed st cl cd"
      and row: "resolve qrow ''row'' (cd_M cd) = Inr (a, b)"
      and col: "resolve qcol ''col'' (cd_N cd) = Inr (c0, c1)"
      and colb: "0 \<le> c0" "c0 < cd_N cd" "0 < c1" "c1 \<le> cd_N cd"
      and i1: "i1 < length cl" "in_range a (cd_rows cd ! i1)"
      and i2: "i2 < length cl" "in_range (b - 1) (cd_rows cd ! i2)"
  shows "ChunkData_getitem st cd (qrow, qcol) =
     (if i1 \<noteq> i2
      then vstack st
             ([Sliced (Handle (cl ! i1)) (Some (a - fst (cd_rows cd ! i1)), None) (Some c0, Some c1)]
              @ map (\<lambda>i. Sliced (Handle (cl ! i)) (None, None) (Some c0, Some c1)) [i1 + 1..<i2]
              @ [Sliced (Handle (cl ! i2)) (None, Some (b - fst (cd_rows cd ! i2))) (Some c0, Some c1)])
      else Inr (Sliced
               (Sliced (Handle (cl ! i1))
                  (Some (a - fst (cd_rows cd ! i1)), Some (b - fst (cd_rows cd ! i1)))
                  (None, None))
               (None, None) (Some c0, Some c1)))"
proof -
  have a: "0 \<le> a" "a < cd_M cd"
    using rows_bounds [OF init i1(1)] i1(2) by (simp_all add: in_range_def)
  have b: "0 < b" "b \<le> cd_M cd"
    using rows_bounds [OF init i2(1)] i2(2) by (simp_all add: in_range_def)
  have w1: "where_item (map (in_range a) (cd_rows cd)) = Inr i1"
    by (rule locate_chunk [OF init i1])
  have w2: "where_item (map (in_range (b - 1)) (cd_rows cd)) = Inr i2"
    by (rule locate_chunk [OF init i2])
  show ?thesis
    using a b colb
    by (simp add: ChunkData_getitem_def row col w1 w2 init_facts(2) [OF init] Let_def)
qed

section \<open>Slices and views\<close>

lemma py_slice_from: "0 \<le> k \<Longrightarrow> py_slice (Some k, None) xs = drop (nat k) xs"
  by (simp add: py_slice_def slice_bounds_def slice_index_def min_def)

lemma py_slice_upto: "0 \<le> k \<Longrightarrow> py_slice (None, Some k) xs = take (nat k) xs"
  by (simp add: py_slice_def slice_bounds_def slice_index_def min_def)

lemma py_slice_all: "py_slice (None, None) xs = xs"
  by (simp add: py_slice_def slice_bounds_def)

lemma py_slice_window:
  "0 \<le> c0 \<Longrightarrow> 0 \<le> c1 \<Longrightarrow>
   py_slice (Some c0, Some c1) xs = take (nat (c1 - c0)) (drop (nat c0) xs)"
proof -
  assume c: "0 \<le> c0" "0 \<le> c1"
  have e: "nat c1 - nat c0 = nat (c1 - c0)" using c by arith
  show ?thesis
    using c by (auto simp: py_slice_def slice_bounds_def slice_index_def min_def e)
qed

lemma slice_len_from: "0 \<le> k \<Longrightarrow> slice_len n (Some k, None) = n - nat k"
  by (simp add: slice_len_def slice_bounds_def slice_index_def min_def)

lemma slice_len_upto: "0 \<le> k \<Longrightarrow> nat k \<le> n \<Longrightarrow> slice_len n (None, Some k) = nat k"
  by (simp add: slice_len_def slice_bounds_def slice_index_def min_def)

lemma slice_len_all: "slice_len n (None, None) = n"
  by (simp add: slice_len_def slice_bounds_def)

lemma slice_len_window:
  "0 \<le> c0 \<Longrightarrow> 0 \<le> c1 \<Longrightarrow> nat c1 \<le> n \<Longrightarrow>
   slice_len n (Some c0, Some c1) = nat (c1 - c0)"
proof -
  assume c: "0 \<le> c0" "0 \<le> c1" "nat c1 \<le> n"
  have e: "nat c1 - nat c0 = nat (c1 - c0)" using c by arith
  show ?thesis
    using c by (auto simp: slice_len_def slice_bounds_def slice_index_def min_def e)
qed

lemma deref_window:
  "shape (st p) = [r, c] \<Longrightarrow>
   deref st (Sliced (Handle p) rs cs) =
     Inr (NDArray [slice_len r rs, slice_len c cs] (map (py_slice cs) (py_slice rs (cells (st p)))))"
  by (simp add: getitem2_def)

lemma collect_map_Inr:
  "\<forall>x\<in>set xs. f x = Inr (g x) \<Longrightarrow> collect (map f xs) = Inr (map g xs)"
  by (induction xs) simp_all

lemma getitem_stacked:
  assumes init: "constructed st cl cd"
      and row: "resolve qrow ''row'' (cd_M cd) = Inr (a, b)"
      and col: "resolve qcol ''col'' (cd_N cd) = Inr (c0, c1)"
      and colb: "0 \<le> c0" "c0 < cd_N cd" "0 < c1" "c1 \<le> cd_N cd"
      and i1: "i1 < length cl" "in_range a (cd_rows cd ! i1)"
      and i2: "i2 < length cl" "in_range (b - 1) (cd_rows cd ! i2)"
      and ne: "i1 \<noteq> i2"
  shows "ChunkData_getitem st cd (qrow, qcol) =
     Inr (Owned (NDArray
        [nat (snd (cd_rows cd ! i1) - a)
           + sum_list (map (\<lambda>i. nat (cd_nrows cd ! i)) [i1 + 1..<i2])
           + nat (b - fst (cd_rows cd ! i2)),
         nat (c1 - c0)]
        (map (\<lambda>r. take (nat (c1 - c0)) (drop (nat c0) r))
           (drop (nat (a - fst (cd_rows cd ! i1))) (cells (st (cl ! i1)))
            @ concat (map (\<lambda>i. cells (st (cl ! i))) [i1 + 1..<i2])
            @ take (nat (b - fst (cd_rows cd ! i2))) (cells (st (cl ! i2)))))))"
proof -
  define cs :: pyslice where "cs = (Some c0, Some c1)"
  define W :: "'a list \<Rightarrow> 'a list" where "W = (\<lambda>r. take (nat (c1 - c0)) (drop (nat c0) r))"
  define w where "w = nat (c1 - c0)"
  have Wcs: "py_slice cs = W"
    using colb by (auto simp: cs_def W_def py_slice_window)
  have shp: "\<And>i. i < length cl \<Longrightarrow> shape (st (cl ! i)) = [nat (cd_nrows cd ! i), nat (cd_N cd)]"
    using init_facts(6) [OF init] by blast
  have wd: "slice_len (nat (cd_N cd)) cs = w"
    using colb by (simp add: cs_def w_def slice_len_window)
  define B1 where "B1 = NDArray [nat (snd (cd_rows cd ! i1) - a), w]
      (map W (drop (nat (a - fst (cd_rows cd ! i1))) (cells (st (cl ! i1)))))"
  define Bm where "Bm = (\<lambda>i. NDArray [nat (cd_nrows cd ! i), w] (map W (cells (st (cl ! i)))))"
  define B2 where "B2 = NDArray [nat (b - fst (cd_rows cd ! i2)), w]
      (map W (take (nat (b - fst (cd_rows cd ! i2))) (cells (st (cl ! i2)))))"
  have r1: "fst (cd_rows cd ! i1) \<le> a" "a < snd (cd_rows cd ! i1)"
    using i1(2) by (simp_all add: in_range_def)
  have r2: "fst (cd_rows cd ! i2) < b" "b \<le> snd (cd_rows cd ! i2)"
    using i2(2) by (simp_all add: in_range_def)
  have h1: "slice_len (nat (cd_nrows cd ! i1)) (Some (a - fst (cd_rows cd ! i1)), None)
              = nat (snd (cd_rows cd ! i1) - a)"
    using r1 rows_bounds(3) [OF init i1(1)] by (simp add: slice_len_from)
  have h2: "slice_len (nat (cd_nrows cd ! i2)) (None, Some (b - fst (cd_rows cd ! i2)))
              = nat (b - fst (cd_rows cd ! i2))"
    using r2 rows_bounds(3) [OF init i2(1)] by (simp add: slice_len_upto)
  have d1: "deref st (Sliced (Handle (cl ! i1)) (Some (a - fst (cd_rows cd ! i1)), None) cs) = Inr B1"
    using r1 by (simp only: deref_window [where st = st and p = "cl ! i1", OF shp [OF i1(1)]] h1 wd Wcs B1_def)
                (simp add: py_slice_from)
  have d2: "deref st (Sliced (Handle (cl ! i2)) (None, Some (b - fst (cd_rows cd ! i2))) cs) = Inr B2"
    using r2 by (simp only: deref_window [where st = st and p = "cl ! i2", OF shp [OF i2(1)]] h2 wd Wcs B2_def)
                (simp add: py_slice_upto)
  have dm: "\<forall>i\<in>set [i1 + 1..<i2]. deref st (Sliced (Handle (cl ! i)) (None, None) cs) = Inr (Bm i)"
  proof
    fix i assume "i \<in> set [i1 + 1..<i2]"
    then have "i < length cl" using i2(1) by simp
    from deref_window [where st = st and p = "cl ! i", OF shp [OF this]]
    show "deref st (Sliced (Handle (cl ! i)) (None, None) cs) = Inr (Bm i)"
      by (simp add: slice_len_all py_slice_all wd Wcs Bm_def)
  qed
  have cm: "collect (map (deref st) (map (\<lambda>i. Sliced (Handle (cl ! i)) (None, None) cs) [i1 + 1..<i2]
              @ [Sliced (Handle (cl ! i2)) (None, Some (b - fst (cd_rows cd ! i2))) cs]))
            = Inr (map Bm [i1 + 1..<i2] @ [B2])"
  proof -
    have "collect (map (\<lambda>x. case x of Inl i \<Rightarrow> deref st (Sliced (Handle (cl ! i)) (None, None) cs)
                                   | Inr u \<Rightarrow> deref st (Sliced (Handle (cl ! i2)) (None, Some (b - fst (cd_rows cd ! i2))) cs))
                       (map Inl [i1 + 1..<i2] @ [Inr ()]))
          = Inr (map (\<lambda>x. case x of Inl i \<Rightarrow> Bm i | Inr u \<Rightarrow> B2) (map Inl [i1 + 1..<i2] @ [Inr ()]))"
      by (rule collect_map_Inr) (use dm d2 in auto)
    then show ?thesis by (simp add: comp_def)
  qed
  have coll: "collect (map (deref st)
        ([Sliced (Handle (cl ! i1)) (Some (a - fst (cd_rows cd ! i1)), None) cs]
         @ map (\<lambda>i. Sliced (Handle (cl ! i)) (None, None) cs) [i1 + 1..<i2]
         @ [Sliced (Handle (cl ! i2)) (None, Some (b - fst (cd_rows cd ! i2))) cs]))
       = Inr (B1 # map Bm [i1 + 1..<i2] @ [B2])"
    using cm d1 by simp
  have tls: "list_all (\<lambda>b. tl (shape b) = tl (shape B1)) (map Bm [i1 + 1..<i2] @ [B2])"
    by (simp add: list_all_iff B1_def Bm_def B2_def)
  have hs: "sum_list (map (\<lambda>b. hd (shape b)) (B1 # map Bm [i1 + 1..<i2] @ [B2]))
        = nat (snd (cd_rows cd ! i1) - a)
           + sum_list (map (\<lambda>i. nat (cd_nrows cd ! i)) [i1 + 1..<i2])
           + nat (b - fst (cd_rows cd ! i2))"
    by (simp add: B1_def Bm_def B2_def comp_def)
  have cc: "concat (map cells (B1 # map Bm [i1 + 1..<i2] @ [B2]))
        = map W (drop (nat (a - fst (cd_rows cd ! i1))) (cells (st (cl ! i1)))
            @ concat (map (\<lambda>i. cells (st (cl ! i))) [i1 + 1..<i2])
            @ take (nat (b - fst (cd_rows cd ! i2))) (cells (st (cl ! i2))))"
    by (simp add: B1_def Bm_def B2_def comp_def map_concat)
  have "vstack st
        ([Sliced (Handle (cl ! i1)) (Some (a - fst (cd_rows cd ! i1)), None) cs]
         @ map (\<lambda>i. Sliced (Handle (cl ! i)) (None, None) cs) [i1 + 1..<i2]
         @ [Sliced (Handle (cl ! i2)) (None, Some (b - fst (cd_rows cd ! i2))) cs])
      = Inr (Owned (NDArray
          (sum_list (map (\<lambda>b. hd (shape b)) (B1 # map Bm [i1 + 1..<i2] @ [B2])) # tl (shape B1))
          (concat (map cells (B1 # map Bm [i1 + 1..<i2] @ [B2])))))"
    unfolding vstack_def coll using tls by simp
  also have "tl (shape B1) = [w]" by (simp add: B1_def)
  finally show ?thesis
    unfolding getitem_located [OF init row col colb i1 i2] hs cc
    using ne by (simp add: cs_def w_def W_def)
qed

lemma py_slice_all_fun: "py_slice (None, None) = (\<lambda>xs. xs)"
  by (rule ext) (simp add: py_slice_all)

lemma deref_view:
  assumes shp: "shape (st p) = [r, c]"
      and lo: "0 \<le> lo" "0 \<le> hi" "nat hi \<le> r"
      and cb: "0 \<le> c0" "0 \<le> c1" "nat c1 \<le> c"
  shows "deref st (Sliced (Sliced (Handle p) (Some lo, Some hi) (None, None))
                     (None, None) (Some c0, Some c1))
         = Inr (NDArray [nat (hi - lo), nat (c1 - c0)]
                  (map (\<lambda>r. take (nat (c1 - c0)) (drop (nat c0) r))
                     (take (nat (hi - lo)) (drop (nat lo) (cells (st p))))))"
proof -
  have W: "py_slice (Some c0, Some c1) = (\<lambda>r. take (nat (c1 - c0)) (drop (nat c0) r))"
    using cb by (intro ext) (simp add: py_slice_window)
  have R: "py_slice (Some lo, Some hi) (cells (st p))
             = take (nat (hi - lo)) (drop (nat lo) (cells (st p)))"
    using lo by (simp add: py_slice_window)
  have h: "slice_len r (Some lo, Some hi) = nat (hi - lo)"
    using lo by (simp add: slice_len_window)
  have w: "slice_len c (Some c0, Some c1) = nat (c1 - c0)"
    using cb by (simp add: slice_len_window)
  show ?thesis
    by (simp add: getitem2_def shp slice_len_all py_slice_all py_slice_all_fun W R h w)
qed

lemma nrows_sum_between:
  assumes init: "constructed st cl cd" and ij: "i \<le> j" and j: "j \<le> length cl"
  shows "int (sum_list (map (\<lambda>k. nat (cd_nrows cd ! k)) [i..<j]))
           = row_start (cd_nrows cd) j - row_start (cd_nrows cd) i"
  using ij j
proof (induction rule: dec_induct)
  case base
  then show ?case by simp
next
  case (step n)
  have n: "n < length cl" using step by simp
  have "0 \<le> cd_nrows cd ! n" using init_facts(6) [OF init] n by blast
  moreover have "row_start (cd_nrows cd) (Suc n) = row_start (cd_nrows cd) n + cd_nrows cd ! n"
    using n init_facts(3) [OF init] by (simp add: row_start_Suc)
  ultimately show ?case using step by simp
qed

lemma wf_cells:
  assumes init: "constructed st cl cd"
      and wf: "\<forall>p\<in>set cl. wf_ndarray (st p)" and i: "i < length cl"
  shows "length (cells (st (cl ! i))) = nat (cd_nrows cd ! i)"
    and "\<forall>r\<in>set (cells (st (cl ! i))). length r = nat (cd_N cd)"
proof -
  have "wf_ndarray (st (cl ! i))" using wf i by simp
  moreover have "shape (st (cl ! i)) = [nat (cd_nrows cd ! i), nat (cd_N cd)]"
    using init_facts(6) [OF init] i by blast
  ultimately show "length (cells (st (cl ! i))) = nat (cd_nrows cd ! i)"
    and "\<forall>r\<in>set (cells (st (cl ! i))). length r = nat (cd_N cd)"
    by (simp_all add: wf_ndarray_def list_all_iff)
qed

lemma concat_map_empty: "\<forall>x\<in>set xs. f x = [] \<Longrightarrow> concat (map f xs) = []"
  by (induction xs) simp_all

lemma upt_split3:
  assumes "i < n"
  shows "[0..<n] = [0..<i] @ i # [Suc i..<n]"
  using assms by (metis le0 less_imp_le_nat upt_add_eq_append upt_conv_Cons le_add_diff_inverse)

section \<open>Queries across chunks\<close>

text \<open>
  C2. A row range that starts in chunk \<open>i1\<close> and whose last row lies in another chunk
  \<open>i2\<close> would give the stacked rows for every \<^verbatim>\<open>ChunkData\<close>. When the running sums
  of the row numbers pass \<open>2^63\<close> the ranges of \<^verbatim>\<open>_rows\<close> overlap: with four chunks
  of \<open>2^62\<close> rows followed by one of 5 rows, \<open>M\<close> is 5, row 0 is found in the first and
  in the last chunk, and the query for the rows 0 to 5 fails with the \<open>ValueError\<close> of
  \<^verbatim>\<open>item\<close>.
\<close>

theorem getitem_cross_chunk_counterexample:
  "ChunkData_init wrap_store [0, 1, 2, 3, 4] = Inr wrap_cd
   \<and> in_range 0 (cd_rows wrap_cd ! 0)
   \<and> in_range (5 - 1) (cd_rows wrap_cd ! 4)
   \<and> ChunkData_getitem wrap_store wrap_cd (Slice (Some 0) (Some 5), Slice None None)
       = Inl ValueError"
proof -
  have "in_range 0 (cd_rows wrap_cd ! 0)" "in_range (5 - 1) (cd_rows wrap_cd ! 4)"
    by (simp_all add: in_range_def wrap_cd_def)
  moreover have "ChunkData_getitem wrap_store wrap_cd (Slice (Some 0) (Some 5), Slice None None)
       = Inl ValueError"
    by (simp add: ChunkData_getitem_def resolve_def where_item_def in_range_def wrap_cd_def)
  ultimately show ?thesis using wrap_cd_init by blast
qed

text \<open>
  C2, as the code has it. Let the row numbers of the chunks add up to less than \<open>2^63\<close>,
  let the row range \<open>a..b\<close> of a query start in chunk \<open>i1\<close> and let its last row
  \<open>b - 1\<close> lie in another chunk \<open>i2\<close>, with a column range \<open>c0..c1\<close> within
  \<open>0..N\<close>. The query returns a new array that stacks the rows of chunk \<open>i1\<close> from local
  row \<open>a - rowStart i1\<close> to its end, all rows of the chunks strictly between \<open>i1\<close> and
  \<open>i2\<close>, and the first \<open>b - rowStart i2\<close> rows of chunk \<open>i2\<close>, each row cut to the
  columns \<open>c0..c1\<close>. When \<open>i1\<close> is before \<open>i2\<close> the result has \<open>b - a\<close> rows. In
  the example, rows 2 to 4 give row 2 of the first chunk on top of row 0 of the second, a
  block of shape \<open>(2, 2)\<close>.
\<close>

theorem getitem_cross_chunk:
  assumes built: "ChunkData_init st chunks = Inr cd"
      and fits: "total_rows st chunks < 2 ^ 63"
      and row: "resolve qrow ''row'' (cd_M cd) = Inr (a, b)"
      and col: "resolve qcol ''col'' (cd_N cd) = Inr (c0, c1)"
      and colb: "0 \<le> c0" "c0 < cd_N cd" "0 < c1" "c1 \<le> cd_N cd"
      and i1: "i1 < length chunks" "in_range a (cd_rows cd ! i1)"
      and i2: "i2 < length chunks" "in_range (b - 1) (cd_rows cd ! i2)"
      and ne: "i1 \<noteq> i2"
  shows "ChunkData_getitem st cd (qrow, qcol) =
     Inr (Owned (NDArray
        [nat (snd (cd_rows cd ! i1) - a)
           + sum_list (map (\<lambda>i. nat (cd_nrows cd ! i)) [i1 + 1..<i2])
           + nat (b - fst (cd_rows cd ! i2)),
         nat (c1 - c0)]
        (map (\<lambda>r. take (nat (c1 - c0)) (drop (nat c0) r))
           (drop (nat (a - fst (cd_rows cd ! i1))) (cells (st (chunks ! i1)))
            @ concat (map (\<lambda>i. cells (st (chunks ! i))) [i1 + 1..<i2])
            @ take (nat (b - fst (cd_rows cd ! i2))) (cells (st (chunks ! i2)))))))
     \<and> (i1 < i2 \<longrightarrow>
          nat (snd (cd_rows cd ! i1) - a)
           + sum_list (map (\<lambda>i. nat (cd_nrows cd ! i)) [i1 + 1..<i2])
           + nat (b - fst (cd_rows cd ! i2)) = nat (b - a))"
proof (intro conjI impI)
  have init: "constructed st chunks cd"
    using built fits by (simp add: constructed_def)
  show "ChunkData_getitem st cd (qrow, qcol) =
     Inr (Owned (NDArray
        [nat (snd (cd_rows cd ! i1) - a)
           + sum_list (map (\<lambda>i. nat (cd_nrows cd ! i)) [i1 + 1..<i2])
           + nat (b - fst (cd_rows cd ! i2)),
         nat (c1 - c0)]
        (map (\<lambda>r. take (nat (c1 - c0)) (drop (nat c0) r))
           (drop (nat (a - fst (cd_rows cd ! i1))) (cells (st (chunks ! i1)))
            @ concat (map (\<lambda>i. cells (st (chunks ! i))) [i1 + 1..<i2])
            @ take (nat (b - fst (cd_rows cd ! i2))) (cells (st (chunks ! i2)))))))"
    by (rule getitem_stacked [OF init row col colb i1 i2 ne])
next
  assume lt: "i1 < i2"
  have init: "constructed st chunks cd"
    using built fits by (simp add: constructed_def)
  have "int (sum_list (map (\<lambda>i. nat (cd_nrows cd ! i)) [Suc i1..<i2]))
          = row_start (cd_nrows cd) i2 - row_start (cd_nrows cd) (Suc i1)"
    using lt i2(1) by (intro nrows_sum_between [OF init]) simp_all
  then have "int (sum_list (map (\<lambda>i. nat (cd_nrows cd ! i)) [Suc i1..<i2]))
          = fst (cd_rows cd ! i2) - snd (cd_rows cd ! i1)"
    by (simp add: rows_nth [OF init i1(1)] rows_nth [OF init i2(1)])
  moreover have "a < snd (cd_rows cd ! i1)" "fst (cd_rows cd ! i2) < b"
    using i1(2) i2(2) by (simp_all add: in_range_def)
  moreover have "snd (cd_rows cd ! i1) \<le> fst (cd_rows cd ! i2)"
    by (rule rows_ordered [OF init lt i2(1)])
  ultimately show "nat (snd (cd_rows cd ! i1) - a)
           + sum_list (map (\<lambda>i. nat (cd_nrows cd ! i)) [i1 + 1..<i2])
           + nat (b - fst (cd_rows cd ! i2)) = nat (b - a)"
    by simp
qed

theorem getitem_cross_chunk_witness:
  "ChunkData_getitem ex_store ex_cd (Slice (Some 2) (Some 4), Slice None None)
     = Inr (Owned (NDArray [2, 2] [[5, 6], [7, 8]]))"
  using getitem_cross_chunk [where st = ex_store and chunks = "[0, 1]" and cd = ex_cd
          and qrow = "Slice (Some 2) (Some 4)" and a = 2 and b = 4
          and qcol = "Slice None None" and ?c0.0 = 0 and ?c1.0 = 2 and ?i1.0 = 0 and ?i2.0 = 1,
          OF ex_cd_init]
  by (simp add: resolve_def ex_cd_def ex_store_def in_range_def total_rows_def)

section \<open>Queries inside one chunk\<close>

text \<open>
  C3. A query whose row range lies inside one chunk would always return a view of that
  chunk. The code looks for the chunks of the rows \<open>start\<close> and \<open>stop - 1\<close>: for the
  empty range from 3 to 3 of the example, which lies in the second chunk, \<open>stop - 1\<close> is
  in the first chunk and the query returns a new array of five rows, the second chunk on
  top of the first. And where the running sums of the row numbers have passed \<open>2^63\<close>,
  the rows 0 to 2 lie in the last chunk but row 0 is found in two chunks and the query
  fails.
\<close>

theorem getitem_same_chunk_is_view_counterexample:
  "ChunkData_init ex_store [0, 1] = Inr ex_cd
   \<and> fst (cd_rows ex_cd ! 1) \<le> 3 \<and> 3 \<le> snd (cd_rows ex_cd ! 1)
   \<and> ChunkData_getitem ex_store ex_cd (Slice (Some 3) (Some 3), Slice None None)
       = Inr (Owned (NDArray [5, 2] [[7, 8], [9, 10], [1, 2], [3, 4], [5, 6]]))
   \<and> ChunkData_init wrap_store [0, 1, 2, 3, 4] = Inr wrap_cd
   \<and> fst (cd_rows wrap_cd ! 4) \<le> 0 \<and> 2 \<le> snd (cd_rows wrap_cd ! 4)
   \<and> ChunkData_getitem wrap_store wrap_cd (Slice (Some 0) (Some 2), Slice None None)
       = Inl ValueError"
proof -
  have "fst (cd_rows ex_cd ! 1) \<le> 3" "3 \<le> snd (cd_rows ex_cd ! 1)"
    by (simp_all add: ex_cd_def)
  moreover have "ChunkData_getitem ex_store ex_cd (Slice (Some 3) (Some 3), Slice None None)
       = Inr (Owned (NDArray [5, 2] [[7, 8], [9, 10], [1, 2], [3, 4], [5, 6]]))"
    by (simp add: ChunkData_getitem_def resolve_def where_item_def in_range_def ex_cd_def
          ex_store_def vstack_def getitem2_def slice_len_def py_slice_def slice_bounds_def
          slice_index_def)
  moreover have "fst (cd_rows wrap_cd ! 4) \<le> 0" "2 \<le> snd (cd_rows wrap_cd ! 4)"
    by (simp_all add: wrap_cd_def)
  moreover have "ChunkData_getitem wrap_store wrap_cd (Slice (Some 0) (Some 2), Slice None None)
       = Inl ValueError"
    by (simp add: ChunkData_getitem_def resolve_def where_item_def in_range_def wrap_cd_def)
  ultimately show ?thesis using ex_cd_init wrap_cd_init by blast
qed

text \<open>
  C3, as the code has it. Let the row numbers of the chunks add up to less than \<open>2^63\<close>.
  When the rows \<open>a\<close> and \<open>b - 1\<close> of an in-bounds query with the row range \<open>a..b\<close> lie
  in the same chunk \<open>i\<close>, as they do for every range with \<open>a < b\<close> inside the chunk, the
  query returns a view that borrows from that chunk and no array of its own. Reading the
  returned block in any store \<open>st'\<close> in which the chunk has kept its shape gives the rows
  \<open>a..b\<close> and columns \<open>c0..c1\<close> of the chunk's content in \<open>st'\<close>: what has been
  written to the chunk since is seen through the block.
\<close>

theorem getitem_same_chunk_is_view:
  assumes built: "ChunkData_init st chunks = Inr cd"
      and fits: "total_rows st chunks < 2 ^ 63"
      and row: "resolve qrow ''row'' (cd_M cd) = Inr (a, b)"
      and col: "resolve qcol ''col'' (cd_N cd) = Inr (c0, c1)"
      and colb: "0 \<le> c0" "c0 < cd_N cd" "0 < c1" "c1 \<le> cd_N cd"
      and i: "i < length chunks"
      and inside: "(fst (cd_rows cd ! i) \<le> a \<and> a < b \<and> b \<le> snd (cd_rows cd ! i))
                 \<or> (in_range a (cd_rows cd ! i) \<and> in_range (b - 1) (cd_rows cd ! i))"
      and same: "shape (st' (chunks ! i)) = shape (st (chunks ! i))"
  shows "\<exists>blk. ChunkData_getitem st cd (qrow, qcol) = Inr blk
           \<and> base blk = Some (chunks ! i)
           \<and> deref st' blk =
               Inr (NDArray [nat (b - a), nat (c1 - c0)]
                      (map (\<lambda>r. take (nat (c1 - c0)) (drop (nat c0) r))
                         (take (nat (b - a))
                            (drop (nat (a - fst (cd_rows cd ! i))) (cells (st' (chunks ! i)))))))"
proof -
  have init: "constructed st chunks cd"
    using built fits by (simp add: constructed_def)
  let ?rs = "fst (cd_rows cd ! i)"
  let ?blk = "Sliced (Sliced (Handle (chunks ! i)) (Some (a - ?rs), Some (b - ?rs)) (None, None))
                (None, None) (Some c0, Some c1)"
  have ia: "in_range a (cd_rows cd ! i)" and ib: "in_range (b - 1) (cd_rows cd ! i)"
    using inside by (auto simp: in_range_def)
  have rng: "?rs \<le> a" "?rs < b" "b \<le> snd (cd_rows cd ! i)"
    using ia ib by (simp_all add: in_range_def)
  have get: "ChunkData_getitem st cd (qrow, qcol) = Inr ?blk"
    using getitem_located [OF init row col colb i ia i ib] by simp
  have shp: "shape (st' (chunks ! i)) = [nat (cd_nrows cd ! i), nat (cd_N cd)]"
    using init_facts(6) [OF init] i same by simp
  have hi: "nat (b - ?rs) \<le> nat (cd_nrows cd ! i)"
    using rng rows_bounds(3) [OF init i] by simp
  have "deref st' ?blk =
          Inr (NDArray [nat (b - ?rs - (a - ?rs)), nat (c1 - c0)]
                 (map (\<lambda>r. take (nat (c1 - c0)) (drop (nat c0) r))
                    (take (nat (b - ?rs - (a - ?rs))) (drop (nat (a - ?rs)) (cells (st' (chunks ! i)))))))"
    using rng colb hi
    by (intro deref_view [where st = st' and p = "chunks ! i", OF shp]) simp_all
  then have "deref st' ?blk =
          Inr (NDArray [nat (b - a), nat (c1 - c0)]
                 (map (\<lambda>r. take (nat (c1 - c0)) (drop (nat c0) r))
                    (take (nat (b - a)) (drop (nat (a - ?rs)) (cells (st' (chunks ! i)))))))"
    by simp
  with get show ?thesis by simp
qed

theorem getitem_same_chunk_is_view_witness:
  "(\<exists>blk. ChunkData_getitem ex_store ex_cd (Slice (Some 0) (Some 3), Slice None None) = Inr blk
         \<and> base blk = Some 0
         \<and> deref ex_store_mut blk = Inr (NDArray [3, 2] [[1, 2], [3, 4], [99, 6]]))
   \<and> (\<exists>blk. ChunkData_getitem ex_store ex_cd (Slice (Some 4) (Some 4), Slice None None) = Inr blk
         \<and> base blk = Some 1
         \<and> deref ex_store_mut blk = Inr (NDArray [0, 2] []))"
  using getitem_same_chunk_is_view [where st = ex_store and chunks = "[0, 1]" and cd = ex_cd
          and qrow = "Slice (Some 0) (Some 3)" and a = 0 and b = 3
          and qcol = "Slice None None" and ?c0.0 = 0 and ?c1.0 = 2 and i = 0
          and st' = ex_store_mut, OF ex_cd_init]
        getitem_same_chunk_is_view [where st = ex_store and chunks = "[0, 1]" and cd = ex_cd
          and qrow = "Slice (Some 4) (Some 4)" and a = 4 and b = 4
          and qcol = "Slice None None" and ?c0.0 = 0 and ?c1.0 = 2 and i = 1
          and st' = ex_store_mut, OF ex_cd_init]
  by (simp add: resolve_def ex_cd_def ex_store_def ex_store_mut_def total_rows_def in_range_def)

section \<open>Reversed row ranges\<close>

text \<open>
  C9. A reversed row slice would be answered without an error for every
  \<^verbatim>\<open>ChunkData\<close>. Where the running sums of the row numbers have passed \<open>2^63\<close> the
  ranges of \<^verbatim>\<open>_rows\<close> overlap: with four chunks of \<open>2^62\<close> rows followed by one
  of 5 rows, \<open>M\<close> is 5, row 4 is found in the first and in the last chunk, and the query
  for the rows from 4 to 2 fails with the \<open>ValueError\<close> of \<^verbatim>\<open>item\<close>.
\<close>

theorem getitem_reversed_rows_counterexample:
  "ChunkData_init wrap_store [0, 1, 2, 3, 4] = Inr wrap_cd
   \<and> 0 < (2::int) \<and> (2::int) < 4 \<and> 4 < cd_M wrap_cd
   \<and> ChunkData_getitem wrap_store wrap_cd (Slice (Some 4) (Some 2), Slice None None)
       = Inl ValueError"
proof -
  have "4 < cd_M wrap_cd" by (simp add: wrap_cd_def)
  moreover have "ChunkData_getitem wrap_store wrap_cd (Slice (Some 4) (Some 2), Slice None None)
       = Inl ValueError"
    by (simp add: ChunkData_getitem_def resolve_def where_item_def in_range_def wrap_cd_def)
  ultimately show ?thesis using wrap_cd_init by simp
qed

text \<open>
  C9, as the code has it. Let the row numbers of the chunks add up to less than \<open>2^63\<close>.
  A row slice with \<open>0 < stop < start < M\<close> passes the bounds test, and both
  \<open>start\<close> and \<open>stop - 1\<close> are found in chunks, the chunk of \<open>stop - 1\<close> not after
  that of \<open>start\<close>. With a column range within \<open>0..N\<close>: if both lie in the same chunk
  the query returns a view of that chunk with no rows; if the chunk of \<open>start\<close> comes
  after that of \<open>stop - 1\<close> it returns a new array with the rows of \<open>start\<close>'s chunk
  from \<open>start\<close> on followed by the rows of the other chunk up to \<open>stop\<close>, at least one
  of each. No error is raised.
\<close>

theorem getitem_reversed_rows:
  assumes built: "ChunkData_init st chunks = Inr cd"
      and fits: "total_rows st chunks < 2 ^ 63"
      and col: "resolve qcol ''col'' (cd_N cd) = Inr (c0, c1)"
      and colb: "0 \<le> c0" "c0 < cd_N cd" "0 < c1" "c1 \<le> cd_N cd"
      and rev: "0 < b" "b < a" "a < cd_M cd"
  shows "(\<exists>j1<length chunks. \<exists>j2\<le>j1.
            in_range a (cd_rows cd ! j1) \<and> in_range (b - 1) (cd_rows cd ! j2))
     \<and> (i1 < length chunks \<and> i2 < length chunks
        \<and> in_range a (cd_rows cd ! i1) \<and> in_range (b - 1) (cd_rows cd ! i2)
        \<longrightarrow> i2 \<le> i1
          \<and> (i1 = i2 \<longrightarrow>
               (\<exists>blk. ChunkData_getitem st cd (Slice (Some a) (Some b), qcol) = Inr blk
                  \<and> base blk = Some (chunks ! i1)
                  \<and> deref st blk = Inr (NDArray [0, nat (c1 - c0)] [])))
          \<and> (i2 < i1 \<longrightarrow>
               ChunkData_getitem st cd (Slice (Some a) (Some b), qcol) =
                 Inr (Owned (NDArray
                   [nat (snd (cd_rows cd ! i1) - a) + nat (b - fst (cd_rows cd ! i2)),
                    nat (c1 - c0)]
                   (map (\<lambda>r. take (nat (c1 - c0)) (drop (nat c0) r))
                      (drop (nat (a - fst (cd_rows cd ! i1))) (cells (st (chunks ! i1)))
                       @ take (nat (b - fst (cd_rows cd ! i2))) (cells (st (chunks ! i2)))))))
               \<and> 0 < nat (snd (cd_rows cd ! i1) - a)
               \<and> 0 < nat (b - fst (cd_rows cd ! i2))))"
proof (intro conjI impI)
  have init: "constructed st chunks cd"
    using built fits by (simp add: constructed_def)
  have row: "resolve (Slice (Some a) (Some b)) ''row'' (cd_M cd) = Inr (a, b)"
    by (simp add: resolve_def)
  obtain j1 where j1: "j1 < length chunks" "in_range a (cd_rows cd ! j1)"
    using chunk_exists [OF init, of a] rev by auto
  obtain j2 where j2: "j2 < length chunks" "in_range (b - 1) (cd_rows cd ! j2)"
    using chunk_exists [OF init, of "b - 1"] rev by auto
  have "j2 \<le> j1"
    using in_range_chunk_order [OF init j1(1) j2(1) j1(2) j2(2)] rev by simp
  with j1 j2 show "\<exists>j1<length chunks. \<exists>j2\<le>j1.
            in_range a (cd_rows cd ! j1) \<and> in_range (b - 1) (cd_rows cd ! j2)"
    by blast
  assume loc: "i1 < length chunks \<and> i2 < length chunks
        \<and> in_range a (cd_rows cd ! i1) \<and> in_range (b - 1) (cd_rows cd ! i2)"
  then have i1: "i1 < length chunks" "in_range a (cd_rows cd ! i1)"
    and i2: "i2 < length chunks" "in_range (b - 1) (cd_rows cd ! i2)"
    by simp_all
  show "i2 \<le> i1"
    using in_range_chunk_order [OF init i1(1) i2(1) i1(2) i2(2)] rev by simp
  {
    assume same: "i1 = i2"
    let ?rs = "fst (cd_rows cd ! i1)"
    let ?blk = "Sliced (Sliced (Handle (chunks ! i1)) (Some (a - ?rs), Some (b - ?rs)) (None, None))
                  (None, None) (Some c0, Some c1)"
    have get: "ChunkData_getitem st cd (Slice (Some a) (Some b), qcol) = Inr ?blk"
      using getitem_located [OF init row col colb i1 i2] same by simp
    have shp: "shape (st (chunks ! i1)) = [nat (cd_nrows cd ! i1), nat (cd_N cd)]"
      using init_facts(6) [OF init] i1(1) by blast
    have rng: "?rs \<le> a" "?rs < b" "b \<le> snd (cd_rows cd ! i1)"
      using i1(2) i2(2) same rev by (simp_all add: in_range_def)
    have "deref st ?blk =
            Inr (NDArray [nat (b - ?rs - (a - ?rs)), nat (c1 - c0)]
                   (map (\<lambda>r. take (nat (c1 - c0)) (drop (nat c0) r))
                      (take (nat (b - ?rs - (a - ?rs)))
                         (drop (nat (a - ?rs)) (cells (st (chunks ! i1)))))))"
      using rng colb rows_bounds(3) [OF init i1(1)]
      by (intro deref_view [where st = st and p = "chunks ! i1", OF shp]) simp_all
    then have "deref st ?blk = Inr (NDArray [0, nat (c1 - c0)] [])"
      using rev by simp
    with get show "\<exists>blk. ChunkData_getitem st cd (Slice (Some a) (Some b), qcol) = Inr blk
                  \<and> base blk = Some (chunks ! i1)
                  \<and> deref st blk = Inr (NDArray [0, nat (c1 - c0)] [])"
      by simp
  }
  {
    assume lt: "i2 < i1"
    then have ne: "i1 \<noteq> i2" by simp
    from getitem_stacked [OF init row col colb i1 i2 ne] lt
    show "ChunkData_getitem st cd (Slice (Some a) (Some b), qcol) =
                 Inr (Owned (NDArray
                   [nat (snd (cd_rows cd ! i1) - a) + nat (b - fst (cd_rows cd ! i2)),
                    nat (c1 - c0)]
                   (map (\<lambda>r. take (nat (c1 - c0)) (drop (nat c0) r))
                      (drop (nat (a - fst (cd_rows cd ! i1))) (cells (st (chunks ! i1)))
                       @ take (nat (b - fst (cd_rows cd ! i2))) (cells (st (chunks ! i2)))))))"
      by simp
    show "0 < nat (snd (cd_rows cd ! i1) - a)"
      using i1(2) by (simp add: in_range_def)
    show "0 < nat (b - fst (cd_rows cd ! i2))"
      using i2(2) by (simp add: in_range_def)
  }
qed

theorem getitem_reversed_rows_witness:
  "ChunkData_getitem ex_store ex_cd (Slice (Some 4) (Some 2), Slice None None)
     = Inr (Owned (NDArray [3, 2] [[9, 10], [1, 2], [3, 4]]))
   \<and> (\<exists>blk. ChunkData_getitem ex_store ex_cd (Slice (Some 2) (Some 1), Slice None None) = Inr blk
         \<and> base blk = Some 0 \<and> deref ex_store blk = Inr (NDArray [0, 2] []))"
  using getitem_reversed_rows [where st = ex_store and chunks = "[0, 1]" and cd = ex_cd
          and a = 4 and b = 2 and qcol = "Slice None None" and ?c0.0 = 0 and ?c1.0 = 2
          and ?i1.0 = 1 and ?i2.0 = 0, OF ex_cd_init]
        getitem_reversed_rows [where st = ex_store and chunks = "[0, 1]" and cd = ex_cd
          and a = 2 and b = 1 and qcol = "Slice None None" and ?c0.0 = 0 and ?c1.0 = 2
          and ?i1.0 = 0 and ?i2.0 = 0, OF ex_cd_init]
  by (simp add: resolve_def ex_cd_def ex_store_def in_range_def total_rows_def)

section \<open>The full range\<close>

text \<open>
  C7. The full-range query over all rows and all columns would return the concatenation of
  all chunks for every \<^verbatim>\<open>ChunkData\<close>. A single chunk without rows is accepted by the
  constructor, \<open>M\<close> is 0, and the full-range query is refused by the bounds test, which
  wants the stop above 0. And with four chunks of \<open>2^62\<close> rows followed by one of
  5 rows the running sums pass \<open>2^63\<close>, \<open>M\<close> is 5, and the full-range query fails with
  the \<open>ValueError\<close> of \<^verbatim>\<open>item\<close>, row 0 being found in two chunks.
\<close>

theorem getitem_full_range_counterexample:
  "ChunkData_init ex0_store [0] = Inr ex0_cd
   \<and> ChunkData_getitem ex0_store ex0_cd (Slice None None, Slice None None)
       = Inl (SPWValueError (Between 0 0) ''row'' (ActSlice 0 0))
   \<and> ChunkData_init wrap_store [0, 1, 2, 3, 4] = Inr wrap_cd
   \<and> ChunkData_getitem wrap_store wrap_cd (Slice None None, Slice None None)
       = Inl ValueError"
proof -
  have "ChunkData_init ex0_store [0] = Inr ex0_cd"
    by (simp add: ChunkData_init_def list_index_def ex0_store_def ex0_cd_def cumsum_def
          int64_def)
  moreover have "ChunkData_getitem ex0_store ex0_cd (Slice None None, Slice None None)
       = Inl (SPWValueError (Between 0 0) ''row'' (ActSlice 0 0))"
    by (simp add: ChunkData_getitem_def resolve_def ex0_cd_def)
  moreover have "ChunkData_getitem wrap_store wrap_cd (Slice None None, Slice None None)
       = Inl ValueError"
    by (simp add: ChunkData_getitem_def resolve_def where_item_def in_range_def wrap_cd_def)
  ultimately show ?thesis using wrap_cd_init by blast
qed

text \<open>
  C7, as the code has it. For a \<^verbatim>\<open>ChunkData\<close> with \<open>M > 0\<close> and \<open>N > 0\<close>
  over arrays whose rows agree with their shapes and whose row numbers add up to less than
  \<open>2^63\<close>, the query whose row range is \<open>0..M\<close> and whose column range is \<open>0..N\<close>
  returns a block whose content is the concatenation of all chunks in their stored order,
  of shape \<open>(M, N)\<close>.
\<close>

theorem getitem_full_range:
  assumes built: "ChunkData_init st chunks = Inr cd"
      and fits: "total_rows st chunks < 2 ^ 63"
      and wf: "\<forall>p\<in>set chunks. wf_ndarray (st p)"
      and pos: "0 < cd_M cd" "0 < cd_N cd"
      and row: "resolve qrow ''row'' (cd_M cd) = Inr (0, cd_M cd)"
      and col: "resolve qcol ''col'' (cd_N cd) = Inr (0, cd_N cd)"
  shows "\<exists>blk. ChunkData_getitem st cd (qrow, qcol) = Inr blk
           \<and> deref st blk =
               Inr (NDArray [nat (cd_M cd), nat (cd_N cd)]
                      (concat (map (\<lambda>p. cells (st p)) chunks)))"
proof -
  have init: "constructed st chunks cd"
    using built fits by (simp add: constructed_def)
  define C where "C = (\<lambda>i. cells (st (chunks ! i)))"
  define n where "n = length chunks"
  define W :: "'a list \<Rightarrow> 'a list"
    where "W = (\<lambda>r. take (nat (cd_N cd - 0)) (drop (nat 0) r))"
  have colb: "(0::int) \<le> 0" "0 < cd_N cd" "0 < cd_N cd" "cd_N cd \<le> cd_N cd"
    using pos by simp_all
  obtain i1 where i1: "i1 < length chunks" "in_range 0 (cd_rows cd ! i1)"
    using chunk_exists [OF init, of 0] pos by auto
  obtain i2 where i2: "i2 < length chunks" "in_range (cd_M cd - 1) (cd_rows cd ! i2)"
    using chunk_exists [OF init, of "cd_M cd - 1"] pos by auto
  have le: "i1 \<le> i2"
    using in_range_chunk_order [OF init i2(1) i1(1) i2(2) i1(2)] pos by simp
  have rs1: "fst (cd_rows cd ! i1) = 0"
    using i1(2) rows_bounds(1) [OF init i1(1)] by (simp add: in_range_def)
  have re2: "snd (cd_rows cd ! i2) = cd_M cd"
    using i2(2) rows_bounds(2) [OF init i2(1)] by (simp add: in_range_def)
  have whole: "concat (map (\<lambda>p. cells (st p)) chunks) = concat (map C [0..<n])"
  proof -
    have "map (\<lambda>p. cells (st p)) chunks = map (\<lambda>p. cells (st p)) (map (nth chunks) [0..<n])"
      by (simp only: n_def map_nth)
    then show ?thesis by (simp add: C_def comp_def)
  qed
  have lenC: "\<And>i. i < n \<Longrightarrow> length (C i) = nat (cd_nrows cd ! i)"
    using wf_cells(1) [OF init wf] by (simp add: C_def n_def)
  have WC: "\<And>i. i < n \<Longrightarrow> map W (C i) = C i"
  proof -
    fix i assume "i < n"
    then have "\<forall>r\<in>set (C i). length r = nat (cd_N cd)"
      using wf_cells(2) [OF init wf] by (simp add: C_def n_def)
    then have "map W (C i) = map (\<lambda>r. r) (C i)"
      by (intro map_cong) (simp_all add: W_def)
    then show "map W (C i) = C i" by simp
  qed
  have before: "\<forall>j\<in>set [0..<i1]. C j = []"
  proof
    fix j assume "j \<in> set [0..<i1]"
    then have j: "j < i1" by simp
    then have jn: "j < length chunks" using i1(1) by simp
    have "snd (cd_rows cd ! j) \<le> 0"
      using rows_ordered [OF init j i1(1)] rs1 by simp
    then have "cd_nrows cd ! j \<le> 0"
      using rows_bounds(1,3) [OF init jn] by simp
    then show "C j = []" using lenC [of j] jn by (simp add: n_def)
  qed
  have after: "\<forall>j\<in>set [Suc i2..<n]. C j = []"
  proof
    fix j assume "j \<in> set [Suc i2..<n]"
    then have j: "i2 < j" and jn: "j < length chunks" by (simp_all add: n_def)
    have "cd_M cd \<le> fst (cd_rows cd ! j)"
      using rows_ordered [OF init j jn] re2 by simp
    then have "cd_nrows cd ! j \<le> 0"
      using rows_bounds(2,3) [OF init jn] by simp
    then show "C j = []" using lenC [of j] jn by (simp add: n_def)
  qed
  show ?thesis
  proof (cases "i1 = i2")
    case True
    let ?blk = "Sliced (Sliced (Handle (chunks ! i1)) (Some 0, Some (cd_M cd)) (None, None))
                  (None, None) (Some 0, Some (cd_N cd))"
    have get: "ChunkData_getitem st cd (qrow, qcol) = Inr ?blk"
      using getitem_located [OF init row col colb i1 i2] True rs1 by simp
    have shp: "shape (st (chunks ! i1)) = [nat (cd_nrows cd ! i1), nat (cd_N cd)]"
      using init_facts(6) [OF init] i1(1) by blast
    have nr: "cd_nrows cd ! i1 = cd_M cd"
      using rows_bounds(3) [OF init i1(1)] rs1 re2 True by simp
    have "deref st ?blk =
            Inr (NDArray [nat (cd_M cd - 0), nat (cd_N cd - 0)]
                   (map W (take (nat (cd_M cd - 0)) (drop (nat 0) (C i1)))))"
      unfolding W_def C_def using pos nr
      by (intro deref_view [where st = st and p = "chunks ! i1", OF shp]) simp_all
    moreover have "take (nat (cd_M cd)) (C i1) = C i1"
      using lenC [of i1] i1(1) nr by (simp add: n_def)
    moreover have "concat (map C [0..<n]) = C i1"
    proof -
      have sp: "[0..<n] = [0..<i1] @ i1 # [Suc i1..<n]"
        using i1(1) by (simp add: upt_split3 n_def)
      show ?thesis
        unfolding sp using before after True by (simp add: concat_map_empty del: upt_Suc)
    qed
    ultimately have "deref st ?blk =
            Inr (NDArray [nat (cd_M cd), nat (cd_N cd)] (concat (map C [0..<n])))"
      using WC [of i1] i1(1) by (simp add: n_def)
    with get whole show ?thesis by simp
  next
    case False
    with le have lt: "i1 < i2" by simp
    have split: "[0..<n] = [0..<i1] @ i1 # [Suc i1..<i2] @ i2 # [Suc i2..<n]"
    proof -
      have "[0..<n] = [0..<i1] @ i1 # [Suc i1..<n]"
        using i1(1) by (simp add: upt_split3 n_def)
      moreover have "[Suc i1..<n] = [Suc i1..<i2] @ i2 # [Suc i2..<n]"
        using lt i2(1) by (metis Suc_leI less_imp_le_nat upt_add_eq_append upt_conv_Cons
            le_add_diff_inverse n_def)
      ultimately show ?thesis by simp
    qed
    have cc: "concat (map C [0..<n]) = C i1 @ concat (map C [Suc i1..<i2]) @ C i2"
      unfolding split using before after by (simp add: concat_map_empty del: upt_Suc)
    have get: "ChunkData_getitem st cd (qrow, qcol) =
       Inr (Owned (NDArray
        [nat (snd (cd_rows cd ! i1) - 0)
           + sum_list (map (\<lambda>i. nat (cd_nrows cd ! i)) [i1 + 1..<i2])
           + nat (cd_M cd - fst (cd_rows cd ! i2)),
         nat (cd_N cd - 0)]
        (map W
           (drop (nat (0 - fst (cd_rows cd ! i1))) (C i1)
            @ concat (map C [i1 + 1..<i2])
            @ take (nat (cd_M cd - fst (cd_rows cd ! i2))) (C i2)))))"
      unfolding W_def C_def
      using getitem_stacked [OF init row col colb i1 i2 False] by simp
    have tk: "take (nat (cd_M cd - fst (cd_rows cd ! i2))) (C i2) = C i2"
      using lenC [of i2] i2(1) rows_bounds(3) [OF init i2(1)] re2 by (simp add: n_def)
    have mids: "\<forall>i\<in>set [Suc i1..<i2]. map W (C i) = C i"
      using WC i2(1) by (simp add: n_def)
    have Wmid: "concat (map (map W \<circ> C) [Suc i1..<i2]) = concat (map C [Suc i1..<i2])"
    proof -
      have "map (map W \<circ> C) [Suc i1..<i2] = map C [Suc i1..<i2]"
        using mids by (intro map_cong) simp_all
      then show ?thesis by (simp only:)
    qed
    have cells_eq: "map W
           (drop (nat (0 - fst (cd_rows cd ! i1))) (C i1)
            @ concat (map C [i1 + 1..<i2])
            @ take (nat (cd_M cd - fst (cd_rows cd ! i2))) (C i2))
          = concat (map C [0..<n])"
    proof -
      have "map W (C i1) = C i1" "map W (C i2) = C i2"
        using WC i1(1) i2(1) by (simp_all add: n_def)
      then show ?thesis
        using Wmid by (simp add: tk rs1 cc map_concat)
    qed
    have "int (sum_list (map (\<lambda>i. nat (cd_nrows cd ! i)) [Suc i1..<i2]))
            = row_start (cd_nrows cd) i2 - row_start (cd_nrows cd) (Suc i1)"
      using lt i2(1) by (intro nrows_sum_between [OF init]) simp_all
    then have "int (sum_list (map (\<lambda>i. nat (cd_nrows cd ! i)) [Suc i1..<i2]))
            = fst (cd_rows cd ! i2) - snd (cd_rows cd ! i1)"
      by (simp add: rows_nth [OF init i1(1)] rows_nth [OF init i2(1)])
    moreover have "snd (cd_rows cd ! i1) \<le> fst (cd_rows cd ! i2)"
      by (rule rows_ordered [OF init lt i2(1)])
    moreover have "0 \<le> snd (cd_rows cd ! i1)" "fst (cd_rows cd ! i2) \<le> cd_M cd"
      using rows_bounds [OF init i1(1)] rows_bounds [OF init i2(1)] rs1
        init_facts(6) [OF init] i1(1) i2(1) re2 by auto
    ultimately have height: "nat (snd (cd_rows cd ! i1) - 0)
           + sum_list (map (\<lambda>i. nat (cd_nrows cd ! i)) [i1 + 1..<i2])
           + nat (cd_M cd - fst (cd_rows cd ! i2)) = nat (cd_M cd)"
      by simp
    show ?thesis
      unfolding get height cells_eq whole by simp
  qed
qed

theorem getitem_full_range_witness:
  "\<exists>blk. ChunkData_getitem ex_store ex_cd (Slice None None, Slice None None) = Inr blk
         \<and> deref ex_store blk
            = Inr (NDArray [5, 2] [[1, 2], [3, 4], [5, 6], [7, 8], [9, 10]])"
  using getitem_full_range [where st = ex_store and chunks = "[0, 1]" and cd = ex_cd
          and qrow = "Slice None None" and qcol = "Slice None None", OF ex_cd_init]
  by (simp add: resolve_def ex_cd_def ex_store_def wf_ndarray_def total_rows_def)

end
